theory Spec2Isabelle
  imports Complex_Main "HOL-Library.Word"
begin

section \<open>JavaScript numbers\<close>

text \<open>
  The component computes with JavaScript numbers, that is IEEE 754 binary64 values.
  A finite double is the rational it denotes; the two zeros are identified, which no
  operation of this component can observe (it compares, multiplies by and divides by
  the positive constant \<open>LAMPORTS_PER_SOL\<close>, floors and converts to BigInt).
\<close>

datatype jsnum = NaN | PInf | NInf | Fin rat

text \<open>Rounding of a rational to the nearest integer, ties to even.\<close>

definition roundHalfEven :: "rat \<Rightarrow> int" where
  "roundHalfEven x =
     (let f = \<lfloor>x\<rfloor>; d = x - of_int f
      in if d < 1 / 2 then f else if 1 / 2 < d then f + 1 else if even f then f else f + 1)"

text \<open>Number of binary digits of a positive integer.\<close>

function bitLength :: "int \<Rightarrow> int" where
  "bitLength n = (if 0 < n then bitLength (n div 2) + 1 else 0)"
  by pat_completeness auto
termination
  by (relation "measure nat") auto

declare bitLength.simps [simp del]

text \<open>\<open>ilog2 x\<close> is the exponent \<open>e\<close> with \<open>2\<^sup>e \<le> x < 2\<^sup>e\<^sup>+\<^sup>1\<close>, for positive \<open>x\<close>.\<close>

definition ilog2 :: "rat \<Rightarrow> int" where
  "ilog2 x =
     (if 1 \<le> x then bitLength \<lfloor>x\<rfloor> - 1
      else - bitLength (\<lceil>1 / x\<rceil> - 1))"

text \<open>
  Round-to-nearest, ties-to-even, into binary64: 53 significant bits, least exponent of
  the unit in the last place \<open>-1074\<close> (subnormals), overflow to infinity from \<open>2\<^sup>1\<^sup>0\<^sup>2\<^sup>4\<close>.
\<close>

definition round64_pos :: "rat \<Rightarrow> jsnum" where
  "round64_pos x =
     (let q = max (ilog2 x - 52) (- 1074);
          r = of_int (roundHalfEven (x / 2 powi q)) * 2 powi q
      in if 2 powi 1024 \<le> r then PInf else Fin r)"

definition jsneg :: "jsnum \<Rightarrow> jsnum" where
  "jsneg x = (case x of NaN \<Rightarrow> NaN | PInf \<Rightarrow> NInf | NInf \<Rightarrow> PInf | Fin q \<Rightarrow> Fin (- q))"

definition round64 :: "rat \<Rightarrow> jsnum" where
  "round64 x =
     (if x = 0 then Fin 0
      else if 0 < x then round64_pos x
      else jsneg (round64_pos (- x)))"

text \<open>The relational operators \<open><\<close>, \<open><=\<close> and \<open>>\<close>: false as soon as an operand is NaN.\<close>

fun jslt :: "jsnum \<Rightarrow> jsnum \<Rightarrow> bool" where
  "jslt NaN _ = False"
| "jslt _ NaN = False"
| "jslt _ NInf = False"
| "jslt PInf _ = False"
| "jslt NInf _ = True"
| "jslt (Fin a) PInf = True"
| "jslt (Fin a) (Fin b) = (a < b)"

definition jsgt :: "jsnum \<Rightarrow> jsnum \<Rightarrow> bool" where
  "jsgt x y = jslt y x"

definition jsle :: "jsnum \<Rightarrow> jsnum \<Rightarrow> bool" where
  "jsle x y = (x \<noteq> NaN \<and> y \<noteq> NaN \<and> \<not> jslt y x)"

definition isNaN :: "jsnum \<Rightarrow> bool" where
  "isNaN x = (x = NaN)"

text \<open>The product \<open>x * y\<close>.\<close>

fun jsmul :: "jsnum \<Rightarrow> jsnum \<Rightarrow> jsnum" where
  "jsmul NaN _ = NaN"
| "jsmul _ NaN = NaN"
| "jsmul (Fin a) (Fin b) = round64 (a * b)"
| "jsmul (Fin a) y = (if a = 0 then NaN else if 0 < a then y else jsneg y)"
| "jsmul x (Fin b) = (if b = 0 then NaN else if 0 < b then x else jsneg x)"
| "jsmul x y = (if x = y then PInf else NInf)"

definition Math_floor :: "jsnum \<Rightarrow> jsnum" where
  "Math_floor x = (case x of Fin q \<Rightarrow> Fin (of_int \<lfloor>q\<rfloor>) | _ \<Rightarrow> x)"

section \<open>String to number\<close>

text \<open>
  A JavaScript string is a sequence of 16-bit code units. The amount the user enters is
  such a sequence; \<open>str\<close> writes one from a literal. The other strings of the component
  are literals of the program or identifiers it hands on unread, and are kept as
  Isabelle strings.
\<close>

type_synonym codeUnit = "16 word"

type_synonym jsstring = "codeUnit list"

definition ch :: "char \<Rightarrow> codeUnit" where
  "ch c = of_nat (of_char c)"

definition str :: "string \<Rightarrow> jsstring" where
  "str s = map ch s"

text \<open>
  \<open>Number(value)\<close> on a string is ECMAScript's StringToNumber: the string is trimmed of
  white space and must then be empty (value 0), or a StrNumericLiteral in full; anything
  else is NaN. White space is WhiteSpace and LineTerminator: TAB, LF, VT, FF, CR, SP,
  NBSP, the other space separators U+1680, U+2000 to U+200A, U+202F, U+205F and U+3000,
  the separators U+2028 and U+2029, and U+FEFF.
\<close>

definition isStrWhiteSpaceChar :: "codeUnit \<Rightarrow> bool" where
  "isStrWhiteSpaceChar c =
     (c \<in> set [0x0009, 0x000A, 0x000B, 0x000C, 0x000D, 0x0020, 0x00A0, 0x1680,
                0x2000, 0x2001, 0x2002, 0x2003, 0x2004, 0x2005, 0x2006, 0x2007,
                0x2008, 0x2009, 0x200A, 0x2028, 0x2029, 0x202F, 0x205F, 0x3000, 0xFEFF])"

definition trimString :: "jsstring \<Rightarrow> jsstring" where
  "trimString s = rev (dropWhile isStrWhiteSpaceChar (rev (dropWhile isStrWhiteSpaceChar s)))"

definition decimalDigit :: "codeUnit \<Rightarrow> nat option" where
  "decimalDigit c =
     (let n = unat c in if 48 \<le> n \<and> n \<le> 57 then Some (n - 48) else None)"

definition hexDigit :: "codeUnit \<Rightarrow> nat option" where
  "hexDigit c =
     (let n = unat c
      in if 48 \<le> n \<and> n \<le> 57 then Some (n - 48)
         else if 97 \<le> n \<and> n \<le> 102 then Some (n - 87)
         else if 65 \<le> n \<and> n \<le> 70 then Some (n - 55)
         else None)"

definition octalDigit :: "codeUnit \<Rightarrow> nat option" where
  "octalDigit c =
     (let n = unat c in if 48 \<le> n \<and> n \<le> 55 then Some (n - 48) else None)"

definition binaryDigit :: "codeUnit \<Rightarrow> nat option" where
  "binaryDigit c =
     (let n = unat c in if 48 \<le> n \<and> n \<le> 49 then Some (n - 48) else None)"

text \<open>The longest prefix of digits, as their values, and what follows it.\<close>

fun takeDigits :: "(codeUnit \<Rightarrow> nat option) \<Rightarrow> jsstring \<Rightarrow> nat list \<times> jsstring" where
  "takeDigits dv [] = ([], [])"
| "takeDigits dv (c # cs) =
     (case dv c of
        None \<Rightarrow> ([], c # cs)
      | Some d \<Rightarrow> (case takeDigits dv cs of (ds, r) \<Rightarrow> (d # ds, r)))"

definition digitsMV :: "nat \<Rightarrow> nat list \<Rightarrow> nat" where
  "digitsMV base ds = foldl (\<lambda>a d. base * a + d) 0 ds"

text \<open>A string that is one or more digits and nothing else.\<close>

definition allDigits :: "(codeUnit \<Rightarrow> nat option) \<Rightarrow> nat \<Rightarrow> jsstring \<Rightarrow> nat option" where
  "allDigits dv base s =
     (case takeDigits dv s of
        (ds, r) \<Rightarrow> if ds \<noteq> [] \<and> r = [] then Some (digitsMV base ds) else None)"

definition signedInteger :: "jsstring \<Rightarrow> int option" where
  "signedInteger s =
     (case s of
        [] \<Rightarrow> None
      | c # r \<Rightarrow>
          if c = ch CHR ''+'' then map_option int (allDigits decimalDigit 10 r)
          else if c = ch CHR ''-'' then map_option (\<lambda>n. - int n) (allDigits decimalDigit 10 r)
          else map_option int (allDigits decimalDigit 10 s))"

text \<open>An optional ExponentPart at the end of a literal; its value is 0 when absent.\<close>

definition exponentPart :: "jsstring \<Rightarrow> int option" where
  "exponentPart s =
     (case s of
        [] \<Rightarrow> Some 0
      | c # r \<Rightarrow> if c = ch CHR ''e'' \<or> c = ch CHR ''E'' then signedInteger r else None)"

datatype mv = MVInfinity | MV rat

definition strUnsignedDecimalLiteral :: "jsstring \<Rightarrow> mv option" where
  "strUnsignedDecimalLiteral s =
     (if s = str ''Infinity'' then Some MVInfinity
      else
        case takeDigits decimalDigit s of
          (ip, r1) \<Rightarrow>
            (case r1 of
               [] \<Rightarrow> if ip = [] then None else Some (MV (of_nat (digitsMV 10 ip)))
             | c # r2 \<Rightarrow>
                 if c = ch CHR ''.'' then
                   (case takeDigits decimalDigit r2 of
                      (fp, r3) \<Rightarrow>
                        if ip = [] \<and> fp = [] then None
                        else map_option
                          (\<lambda>e. MV ((of_nat (digitsMV 10 ip)
                                     + of_nat (digitsMV 10 fp) / 10 ^ length fp) * 10 powi e))
                          (exponentPart r3))
                 else if ip = [] then None
                 else map_option (\<lambda>e. MV (of_nat (digitsMV 10 ip) * 10 powi e))
                        (exponentPart r1)))"

text \<open>A decimal literal with its optional sign: whether it is negative, and its value.\<close>

definition strDecimalLiteral :: "jsstring \<Rightarrow> (bool \<times> mv) option" where
  "strDecimalLiteral s =
     (case s of
        [] \<Rightarrow> None
      | c # r \<Rightarrow>
          if c = ch CHR ''+'' then map_option (Pair False) (strUnsignedDecimalLiteral r)
          else if c = ch CHR ''-'' then map_option (Pair True) (strUnsignedDecimalLiteral r)
          else map_option (Pair False) (strUnsignedDecimalLiteral s))"

text \<open>Binary, octal and hexadecimal integer literals; they take no sign.\<close>

definition nonDecimalIntegerLiteral :: "jsstring \<Rightarrow> nat option" where
  "nonDecimalIntegerLiteral s =
     (case s of
        c0 # c1 # r \<Rightarrow>
          if c0 \<noteq> ch CHR ''0'' then None
          else if c1 = ch CHR ''b'' \<or> c1 = ch CHR ''B'' then allDigits binaryDigit 2 r
          else if c1 = ch CHR ''o'' \<or> c1 = ch CHR ''O'' then allDigits octalDigit 8 r
          else if c1 = ch CHR ''x'' \<or> c1 = ch CHR ''X'' then allDigits hexDigit 16 r
          else None
      | _ \<Rightarrow> None)"

text \<open>
  The value of a literal is rounded to the nearest double; the latitude ECMAScript gives
  beyond 20 significant digits is not used.
\<close>

definition StringToNumber :: "jsstring \<Rightarrow> jsnum" where
  "StringToNumber s =
     (let t = trimString s
      in if t = [] then Fin 0
         else
           case nonDecimalIntegerLiteral t of
             Some n \<Rightarrow> round64 (of_nat n)
           | None \<Rightarrow>
               (case strDecimalLiteral t of
                  None \<Rightarrow> NaN
                | Some (neg, MVInfinity) \<Rightarrow> if neg then NInf else PInf
                | Some (neg, MV q) \<Rightarrow> round64 (if neg then - q else q)))"

section \<open>Lamports\<close>

text \<open>
  \<open>LAMPORTS_PER_SOL\<close> is the constant of the web3 library, one thousand million. A
  numeric literal denotes the double nearest to its decimal value.
\<close>

definition LAMPORTS_PER_SOL :: jsnum where
  "LAMPORTS_PER_SOL = round64 1000000000"

text \<open>
  The quotient \<open>x / LAMPORTS_PER_SOL\<close>: the divisor is a positive finite constant, so
  NaN and the infinities pass through and a finite quotient is rounded.
\<close>

definition perSol :: "jsnum \<Rightarrow> jsnum" where
  "perSol x = (case x of Fin q \<Rightarrow> round64 (q / 1000000000) | _ \<Rightarrow> x)"

section \<open>Messages and exceptions\<close>

text \<open>
  A template literal is kept as its parts: the literal text and the numbers substituted
  into it, whose rendering (Number::toString) is not modelled. The empty string is the
  empty list of parts.
\<close>

datatype part = Str string | Subst jsnum

type_synonym template = "part list"

text \<open>
  What a \<open>catch\<close> can tell apart: a SendTransactionError, any other Error (a RangeError
  or TypeError is one) with its message, and a thrown value that is no Error.
\<close>

datatype exn = SendTransactionError template | Error template | Thrown

section \<open>The instruction payload\<close>

type_synonym byte = "8 word"

text \<open>ECMAScript's IsIntegralNumber: finite and without a fractional part.\<close>

definition isIntegralNumber :: "jsnum \<Rightarrow> bool" where
  "isIntegralNumber x = (case x of Fin q \<Rightarrow> of_int \<lfloor>q\<rfloor> = q | _ \<Rightarrow> False)"

text \<open>
  \<open>BigInt(lamports)\<close>: a RangeError unless the number is integral. The wording of
  the message is the engine's.
\<close>

definition notAnInteger :: "jsnum \<Rightarrow> exn" where
  "notAnInteger x =
     Error [Str ''The number '', Subst x,
            Str '' cannot be converted to a BigInt because it is not an integer'']"

definition NumberToBigInt :: "jsnum \<Rightarrow> exn + int" where
  "NumberToBigInt x =
     (case x of
        Fin q \<Rightarrow> if isIntegralNumber x then Inr \<lfloor>q\<rfloor> else Inl (notAnInteger x)
      | _ \<Rightarrow> Inl (notAnInteger x))"

fun littleEndianBytes :: "nat \<Rightarrow> nat \<Rightarrow> byte list" where
  "littleEndianBytes 0 v = []"
| "littleEndianBytes (Suc k) v = of_nat (v mod 256) # littleEndianBytes k (v div 256)"

text \<open>
  \<open>view.setBigUint64(0, v, true)\<close> on a fresh 8-byte buffer: the value is taken
  modulo \<open>2\<^sup>6\<^sup>4\<close> and written with the least significant byte first. The result is the
  buffer's content.
\<close>

definition setBigUint64 :: "int \<Rightarrow> byte list" where
  "setBigUint64 v = littleEndianBytes 8 (nat (v mod 2 ^ 64))"

text \<open>\<open>target.set(source, offset)\<close> on typed arrays.\<close>

definition typedArraySet :: "byte list \<Rightarrow> byte list \<Rightarrow> nat \<Rightarrow> exn + byte list" where
  "typedArraySet target source offset =
     (if length target < offset + length source then Inl (Error [Str ''offset is out of bounds''])
      else Inr (take offset target @ source @ drop (offset + length source) target))"

definition createInstructionData :: "jsnum \<Rightarrow> exn + byte list" where
  "createInstructionData lamports =
     (let data0 = replicate 9 (0 :: byte);
          data1 = data0[0 := 0]
      in case NumberToBigInt lamports of
           Inl e \<Rightarrow> Inl e
         | Inr n \<Rightarrow> typedArraySet data1 (setBigUint64 n) 1)"

text \<open>
  The reading the payload is meant for: eight bytes as an unsigned integer, least
  significant byte first.
\<close>

definition readBigUint64 :: "byte list \<Rightarrow> nat" where
  "readBigUint64 bs = foldr (\<lambda>b acc. unat b + 256 * acc) (take 8 bs) 0"

section \<open>The component\<close>

definition MIN_INVESTMENT :: jsnum where
  "MIN_INVESTMENT = round64 (1 / 100000000)"

definition MAX_INVESTMENT :: jsnum where
  "MAX_INVESTMENT = round64 5000"

datatype pubkey = PublicKey string

definition PROGRAM_ID :: pubkey where
  "PROGRAM_ID = PublicKey ''581gc2hFXcg1V5Wx3MLeH557MgsVwqowC3P21oWjkELm''"

definition ADMIN_WALLET :: pubkey where
  "ADMIN_WALLET = PublicKey ''2FcJbN2kgx3eB1JeJgoBKczpAsXxJzosq269Coidxfhd''"

definition SystemProgram_programId :: pubkey where
  "SystemProgram_programId = PublicKey ''11111111111111111111111111111111''"

record accountMeta =
  pubkey :: pubkey
  isSigner :: bool
  isWritable :: bool

record transactionInstruction =
  keys :: "accountMeta list"
  programId :: pubkey
  data :: "byte list"

record transaction =
  instructions :: "transactionInstruction list"
  feePayer :: "pubkey option"
  recentBlockhash :: "string option"

text \<open>What the wallet hands back: the transaction with its signature.\<close>

datatype signedTransaction = SignedTransaction transaction "byte list"

text \<open>
  What a confirmation resolves with: the \<open>err\<close> of the signature status, absent when
  the transaction has succeeded.
\<close>

datatype signatureResult = SignatureResult "string option"

text \<open>The component's own state: the three \<open>useState\<close> cells.\<close>

record state =
  amount :: jsstring
  error :: template
  isProcessing :: bool

text \<open>
  What the handlers close over and call: the values of the hooks, and for every call
  that leaves the component its outcome, a value or the exception it throws. The
  \<open>PublicKey\<close> constructor throws on a string that is no key.
\<close>

record env =
  isPresaleEnded :: bool
  walletAddress :: "string option"
  windowSolana :: bool
  getConnection :: "exn + unit"
  newPublicKey :: "string \<Rightarrow> exn + pubkey"
  getBalance :: "pubkey \<Rightarrow> exn + jsnum"
  getLatestBlockhash :: "string \<Rightarrow> exn + string \<times> jsnum"
  signTransaction :: "transaction \<Rightarrow> exn + signedTransaction"
  serialize :: "signedTransaction \<Rightarrow> exn + byte list"
  sendRawTransaction :: "byte list \<Rightarrow> exn + string"
  confirmTransaction :: "string \<Rightarrow> string \<Rightarrow> jsnum \<Rightarrow> exn + signatureResult"
  addNotification :: "string \<Rightarrow> template \<Rightarrow> exn + unit"
  addDeposit :: "jsnum \<Rightarrow> exn + unit"

text \<open>The calls a run makes, in order, state setters included.\<close>

datatype event =
    AddNotification string template
  | GetConnection
  | GetBalance pubkey
  | GetLatestBlockhash string
  | SignTransaction transaction
  | SendRawTransaction "byte list"
  | ConfirmTransaction string string jsnum
  | AddDeposit jsnum
  | SetAmount jsstring
  | SetError template
  | SetIsProcessing bool

type_synonym world = "state \<times> event list"

type_synonym 'a step = "world \<Rightarrow> (exn + 'a) \<times> world"

definition setAmount :: "jsstring \<Rightarrow> world \<Rightarrow> world" where
  "setAmount v w = ((fst w)\<lparr>amount := v\<rparr>, snd w @ [SetAmount v])"

definition setError :: "template \<Rightarrow> world \<Rightarrow> world" where
  "setError v w = ((fst w)\<lparr>error := v\<rparr>, snd w @ [SetError v])"

definition setIsProcessing :: "bool \<Rightarrow> world \<Rightarrow> world" where
  "setIsProcessing v w = ((fst w)\<lparr>isProcessing := v\<rparr>, snd w @ [SetIsProcessing v])"

text \<open>Sequencing of steps that may throw: the first exception ends the sequence.\<close>

definition andThen :: "'a step \<Rightarrow> ('a \<Rightarrow> 'b step) \<Rightarrow> 'b step" where
  "andThen m f w = (case m w of (Inl e, w') \<Rightarrow> (Inl e, w') | (Inr a, w') \<Rightarrow> f a w')"

text \<open>A call that leaves the component: it is recorded, then has its outcome.\<close>

definition call :: "event \<Rightarrow> exn + 'a \<Rightarrow> 'a step" where
  "call ev r w = (r, (fst w, snd w @ [ev]))"

text \<open>A computation inside the component that may throw.\<close>

definition local :: "exn + 'a \<Rightarrow> 'a step" where
  "local r w = (r, w)"

definition validateAmount :: "env \<Rightarrow> jsstring \<Rightarrow> world \<Rightarrow> bool \<times> world" where
  "validateAmount env value w =
     (if isPresaleEnded env then (False, setError [Str ''Presale has ended''] w)
      else
        let numAmount = StringToNumber value
        in if isNaN numAmount \<or> jsle numAmount (Fin 0)
           then (False, setError [Str ''Please enter a valid amount''] w)
           else if jslt numAmount MIN_INVESTMENT
           then (False, setError [Str ''Minimum investment is '', Subst MIN_INVESTMENT, Str '' SOL''] w)
           else if jsgt numAmount MAX_INVESTMENT
           then (False, setError [Str ''Maximum investment is '', Subst MAX_INVESTMENT, Str '' SOL''] w)
           else (True, setError [] w))"

definition handleAmountChange :: "env \<Rightarrow> jsstring \<Rightarrow> world \<Rightarrow> world" where
  "handleAmountChange env value w = snd (validateAmount env value (setAmount value w))"

text \<open>
  The \<open>try\<close> block of \<open>handleInvest\<close>. \<open>st\<close> holds the values of the render the
  handler was created in: \<open>amount\<close> is read from it throughout the run.
\<close>

definition tryBlock :: "env \<Rightarrow> state \<Rightarrow> string \<Rightarrow> unit step" where
  "tryBlock env st wallet =
     andThen (call GetConnection (getConnection env)) (\<lambda>connection.
     andThen (local (if \<not> windowSolana env then Inl (Error [Str ''Wallet not found''])
                     else Inr ())) (\<lambda>_.
     let lamports = Math_floor (jsmul (StringToNumber (amount st)) LAMPORTS_PER_SOL) in
     andThen (local (newPublicKey env wallet)) (\<lambda>owner.
     andThen (call (GetBalance owner) (getBalance env owner)) (\<lambda>balance.
     andThen (local (if jslt balance lamports
                     then Inl (Error [Str ''Insufficient balance. Required: '',
                                      Subst (perSol lamports), Str '' SOL, Available: '',
                                      Subst (perSol balance), Str '' SOL''])
                     else Inr ())) (\<lambda>_.
     andThen (local (newPublicKey env wallet)) (\<lambda>investor.
     andThen (local (createInstructionData lamports)) (\<lambda>payload.
     let instruction =
       \<lparr>keys = [\<lparr>pubkey = investor, isSigner = True, isWritable = True\<rparr>,
                \<lparr>pubkey = ADMIN_WALLET, isSigner = False, isWritable = True\<rparr>,
                \<lparr>pubkey = SystemProgram_programId, isSigner = False, isWritable = False\<rparr>],
        programId = PROGRAM_ID,
        data = payload\<rparr> in
     andThen (call (GetLatestBlockhash ''confirmed'') (getLatestBlockhash env ''confirmed''))
       (\<lambda>(blockhash, lastValidBlockHeight).
     andThen (local (newPublicKey env wallet)) (\<lambda>payer.
     let transaction =
       \<lparr>instructions = [instruction], feePayer = Some payer,
        recentBlockhash = Some blockhash\<rparr> in
     andThen (call (SignTransaction transaction) (signTransaction env transaction)) (\<lambda>signed.
     andThen (local (serialize env signed)) (\<lambda>raw.
     andThen (call (SendRawTransaction raw) (sendRawTransaction env raw)) (\<lambda>signature.
     andThen (call (ConfirmTransaction signature blockhash lastValidBlockHeight)
                (confirmTransaction env signature blockhash lastValidBlockHeight)) (\<lambda>_.
     andThen (call (AddNotification ''success'' [Str ''Investment successful!''])
                (addNotification env ''success'' [Str ''Investment successful!''])) (\<lambda>_.
     andThen (call (AddDeposit (StringToNumber (amount st)))
                (addDeposit env (StringToNumber (amount st)))) (\<lambda>_.
     (\<lambda>w. (Inr (), setAmount [] w)))))))))))))))))"

definition catchBlock :: "env \<Rightarrow> exn \<Rightarrow> unit step" where
  "catchBlock env e =
     (case e of
        SendTransactionError message \<Rightarrow>
          call (AddNotification ''error'' (Str ''Transaction failed: '' # message))
            (addNotification env ''error'' (Str ''Transaction failed: '' # message))
      | Error message \<Rightarrow>
          call (AddNotification ''error'' message) (addNotification env ''error'' message)
      | Thrown \<Rightarrow>
          call (AddNotification ''error'' [Str ''Investment failed''])
            (addNotification env ''error'' [Str ''Investment failed'']))"

text \<open>
  \<open>handleInvest\<close>: the result is how the promise it returns settles, \<open>Inl\<close> when it
  is rejected. The \<open>finally\<close> block runs after the \<open>try\<close> block and after the
  \<open>catch\<close> block, also when the latter throws.
\<close>

definition handleInvest :: "env \<Rightarrow> unit step" where
  "handleInvest env w =
     (let st = fst w
      in (case walletAddress env of
            None \<Rightarrow>
              call (AddNotification ''warning'' [Str ''Please connect your wallet''])
                (addNotification env ''warning'' [Str ''Please connect your wallet'']) w
          | Some wallet \<Rightarrow>
              (if wallet = [] then
                 call (AddNotification ''warning'' [Str ''Please connect your wallet''])
                   (addNotification env ''warning'' [Str ''Please connect your wallet'']) w
               else
                 (case validateAmount env (amount st) w of
                    (valid, w1) \<Rightarrow>
                      (if \<not> valid then
                         call (AddNotification ''error'' (error st))
                           (addNotification env ''error'' (error st)) w1
                       else
                         (case tryBlock env st wallet (setIsProcessing True w1) of
                            (Inr u, w2) \<Rightarrow> (Inr (), setIsProcessing False w2)
                          | (Inl e, w2) \<Rightarrow>
                              (case catchBlock env e w2 of
                                 (r, w3) \<Rightarrow> (r, setIsProcessing False w3))))))))"

text \<open>Whether an event is a signature request to the wallet.\<close>

definition isSignTransaction :: "event \<Rightarrow> bool" where
  "isSignTransaction ev = (case ev of SignTransaction t \<Rightarrow> True | _ \<Rightarrow> False)"

text \<open>
  An environment in which the presale is open, a wallet holding 2 SOL is connected and
  every call succeeds, and a state in which the user has entered 1.5.
\<close>

definition openEnv :: env where
  "openEnv =
     \<lparr>isPresaleEnded = False,
      walletAddress = Some ''7xKXtg2CW87d97TXJSDpbD5jBkheTqA83TZRuJosgAsU'',
      windowSolana = True,
      getConnection = Inr (),
      newPublicKey = (\<lambda>s. Inr (PublicKey s)),
      getBalance = (\<lambda>k. Inr (Fin 2000000000)),
      getLatestBlockhash = (\<lambda>c. Inr (''EkSnNWid2cvwEVnVx9aBqawnmiCNiDgp3gUdkDPTKN1N'', Fin 250000000)),
      signTransaction = (\<lambda>t. Inr (SignedTransaction t [1, 2, 3])),
      serialize = (\<lambda>t. Inr [1, 2, 3]),
      sendRawTransaction = (\<lambda>b. Inr ''5VERv8NMvzbJMEkV8xnrLkEaWRtSz9CosKDYjCJjBRnb''),
      confirmTransaction = (\<lambda>s b h. Inr (SignatureResult None)),
      addNotification = (\<lambda>l m. Inr ()),
      addDeposit = (\<lambda>a. Inr ())\<rparr>"

definition enteredState :: state where
  "enteredState = \<lparr>amount = str ''1.5'', error = [], isProcessing = False\<rparr>"


definition refusingWalletEnv :: env where
  "refusingWalletEnv =
     openEnv\<lparr>signTransaction := \<lambda>t. Inl (Error [Str ''User rejected the request.''])\<rparr>"

section \<open>Numeric strings, as they are written\<close>

text \<open>
  The strings of ECMAScript's \<open>StrNumericLiteral\<close> that are not plain decimal notation,
  built from their digits: these are the strings a user types, written without reference
  to the parser above, and with the number each of them denotes.
\<close>

text \<open>The character of a decimal digit, and of a hexadecimal digit in either case.\<close>

definition decimalChar :: "nat \<Rightarrow> codeUnit" where
  "decimalChar d = str ''0123456789'' ! d"

definition hexChar :: "bool \<Rightarrow> nat \<Rightarrow> codeUnit" where
  "hexChar upper d =
     (if upper then str ''0123456789ABCDEF'' else str ''0123456789abcdef'') ! d"

text \<open>The number a sequence of digits denotes in base \<open>b\<close>, most significant digit first.\<close>

definition positional :: "nat \<Rightarrow> nat list \<Rightarrow> nat" where
  "positional b ds = (\<Sum>i<length ds. ds ! i * b ^ (length ds - Suc i))"

text \<open>
  A hexadecimal literal: \<open>0x\<close> or \<open>0X\<close>, then the digits, each in its own case.
\<close>

definition hexLiteral :: "bool \<Rightarrow> (bool \<times> nat) list \<Rightarrow> jsstring" where
  "hexLiteral upperX ds =
     ch CHR ''0'' # ch (if upperX then CHR ''X'' else CHR ''x'') # map (\<lambda>(u, d). hexChar u d) ds"

datatype sign = NoSign | Plus | Minus

definition signChars :: "sign \<Rightarrow> jsstring" where
  "signChars sg = (case sg of NoSign \<Rightarrow> [] | Plus \<Rightarrow> str ''+'' | Minus \<Rightarrow> str ''-'')"

text \<open>
  A literal in scientific notation: the digits of the integer part, an optional dot with
  the digits of the fraction, \<open>e\<close> or \<open>E\<close>, an optional sign and the digits of the exponent;
  and the rational number it denotes.
\<close>

definition scientificLiteral ::
  "nat list \<Rightarrow> nat list option \<Rightarrow> bool \<Rightarrow> sign \<Rightarrow> nat list \<Rightarrow> jsstring" where
  "scientificLiteral ip fraction upperE sg xs =
     map decimalChar ip
     @ (case fraction of None \<Rightarrow> [] | Some fp \<Rightarrow> ch CHR ''.'' # map decimalChar fp)
     @ [ch (if upperE then CHR ''E'' else CHR ''e'')]
     @ signChars sg @ map decimalChar xs"

definition scientificValue :: "nat list \<Rightarrow> nat list option \<Rightarrow> sign \<Rightarrow> nat list \<Rightarrow> rat" where
  "scientificValue ip fraction sg xs =
     (of_nat (positional 10 ip)
      + (case fraction of None \<Rightarrow> 0 | Some fp \<Rightarrow> of_nat (positional 10 fp) / 10 ^ length fp))
     * 10 powi (case sg of Minus \<Rightarrow> - int (positional 10 xs) | _ \<Rightarrow> int (positional 10 xs))"

text \<open>A literal with an optional sign in front, and the number it then denotes.\<close>

definition signedLiteral :: "sign \<Rightarrow> jsstring \<Rightarrow> jsstring" where
  "signedLiteral sg s = signChars sg @ s"

definition signedValue :: "sign \<Rightarrow> rat \<Rightarrow> rat" where
  "signedValue sg q = (case sg of Minus \<Rightarrow> - q | _ \<Rightarrow> q)"

section \<open>Properties of the rounding\<close>

lemma bitLength_pos: "0 < n \<Longrightarrow> 0 < bitLength n"
proof (induction n rule: bitLength.induct)
  case (1 n)
  show ?case
  proof (cases "0 < n div 2")
    case True
    with 1 have "0 < bitLength (n div 2)" by simp
    with 1(2) show ?thesis by (subst bitLength.simps) simp
  next
    case False
    then have "bitLength (n div 2) = 0" by (subst bitLength.simps) simp
    with 1(2) show ?thesis by (subst bitLength.simps) simp
  qed
qed

lemma bitLength_bounds:
  "0 < n \<Longrightarrow> 2 ^ nat (bitLength n - 1) \<le> n \<and> n < 2 ^ nat (bitLength n)"
proof (induction n rule: bitLength.induct)
  case (1 n)
  have eq: "bitLength n = bitLength (n div 2) + 1"
    using 1(2) by (subst bitLength.simps) simp
  show ?case
  proof (cases "0 < n div 2")
    case True
    with 1 have ih: "2 ^ nat (bitLength (n div 2) - 1) \<le> n div 2"
      "n div 2 < 2 ^ nat (bitLength (n div 2))" by simp_all
    have pos: "0 < bitLength (n div 2)" using True by (rule bitLength_pos)
    have e1: "nat (bitLength n - 1) = Suc (nat (bitLength (n div 2) - 1))"
      using pos eq by simp
    have e2: "nat (bitLength n) = Suc (nat (bitLength (n div 2)))"
      using pos eq by simp
    have d: "2 * (n div 2) \<le> n" "n < 2 * (n div 2) + 2" by linarith+
    from ih d show ?thesis unfolding e1 e2 power_Suc by linarith
  next
    case False
    with 1(2) have n1: "n = 1" by simp
    have "bitLength (n div 2) = 0" using False by (subst bitLength.simps) simp
    with eq n1 show ?thesis by simp
  qed
qed

lemma ilog2_bounds:
  assumes "0 < x"
  shows "2 powi ilog2 x \<le> x \<and> x < 2 powi (ilog2 x + 1)"
proof (cases "1 \<le> x")
  case True
  define m where "m = \<lfloor>x\<rfloor>"
  have m: "0 < m" "of_int m \<le> x" "x < of_int m + 1"
    using True floor_correct [of x] by (simp_all add: m_def)
  from bitLength_bounds [OF m(1)] bitLength_pos [OF m(1)]
  have b: "2 ^ nat (bitLength m - 1) \<le> m" "m + 1 \<le> 2 ^ nat (bitLength m)" "0 < bitLength m"
    by simp_all
  have e: "ilog2 x = bitLength m - 1" using True by (simp add: ilog2_def m_def)
  have "(2::rat) powi (bitLength m - 1) = of_int (2 ^ nat (bitLength m - 1))"
    using b(3) by (simp add: power_int_def)
  also have "\<dots> \<le> of_int m" using b(1) by (simp only: of_int_le_iff)
  finally have lo: "2 powi (bitLength m - 1) \<le> x" using m(2) by simp
  have "x < of_int (m + 1)" using m(3) by simp
  also have "\<dots> \<le> of_int (2 ^ nat (bitLength m))" using b(2) by (simp only: of_int_le_iff)
  also have "\<dots> = (2::rat) powi bitLength m" using b(3) by (simp add: power_int_def)
  finally have hi: "x < 2 powi bitLength m" .
  from lo hi show ?thesis by (simp add: e)
next
  case False
  define y where "y = 1 / x"
  define N where "N = \<lceil>y\<rceil>"
  have y: "1 < y" using False assms by (simp add: y_def)
  have N: "2 \<le> N" "y \<le> of_int N" "of_int N - 1 < y"
    using y by (simp_all add: N_def le_ceiling_iff less_le_trans[OF _ le_of_int_ceiling], linarith)
  define c where "c = bitLength (N - 1)"
  have N1: "0 < N - 1" using N(1) by simp
  from bitLength_bounds [OF N1] bitLength_pos [OF N1]
  have b: "2 ^ nat (c - 1) \<le> N - 1" "N \<le> 2 ^ nat c" "0 < c"
    by (simp_all add: c_def)
  have e: "ilog2 x = - c" using False by (simp add: ilog2_def c_def N_def y_def)
  have xy: "x = 1 / y" using assms by (simp add: y_def)
  have "y \<le> of_int (2 ^ nat c)" using N(2) b(2) by (meson of_int_le_iff order_trans)
  also have "\<dots> = (2::rat) powi c" using b(3) by (simp add: power_int_def)
  finally have "1 / ((2::rat) powi c) \<le> 1 / y" using y by (intro divide_left_mono) (simp_all add: mult_pos_pos)
  then have lo: "2 powi (- c) \<le> x" by (simp add: xy power_int_minus_divide)
  have "(2::rat) powi (c - 1) = of_int (2 ^ nat (c - 1))" using b(3) by (simp add: power_int_def)
  also have "\<dots> \<le> of_int (N - 1)" using b(1) by (simp only: of_int_le_iff)
  also have "\<dots> < y" using N(3) by simp
  finally have "1 / y < 1 / ((2::rat) powi (c - 1))"
    by (intro divide_strict_left_mono) (simp_all add: mult_pos_pos y less_trans[OF zero_less_one y])
  then have hi: "x < 2 powi (- c + 1)"
    by (simp add: xy power_int_minus_divide [symmetric])
  from lo hi show ?thesis by (simp add: e)
qed


lemma roundHalfEven_bounds:
  "y - 1 / 2 \<le> of_int (roundHalfEven y) \<and> of_int (roundHalfEven y) \<le> y + 1 / 2"
proof -
  have "of_int \<lfloor>y\<rfloor> \<le> y" "y < of_int \<lfloor>y\<rfloor> + 1"
    using floor_correct [of y] by simp_all
  then show ?thesis
    unfolding roundHalfEven_def Let_def by (simp split: if_splits) linarith
qed

lemma roundHalfEven_nonneg: "0 \<le> y \<Longrightarrow> 0 \<le> roundHalfEven y"
  by (auto simp: roundHalfEven_def Let_def intro: add_nonneg_nonneg)

lemma round64_pos_accuracy:
  assumes "0 < x"
  defines "q \<equiv> max (ilog2 x - 52) (- 1074)"
  defines "r \<equiv> rat_of_int (roundHalfEven (x / 2 powi q)) * 2 powi q"
  shows "0 \<le> r" and "\<bar>r - x\<bar> \<le> 2 powi q / 2"
    and "round64_pos x = (if 2 powi 1024 \<le> r then PInf else Fin r)"
proof -
  have p: "(0::rat) < 2 powi q" by (simp add: zero_less_power_int)
  have "0 \<le> x / 2 powi q" using assms(1) p by simp
  then have "0 \<le> roundHalfEven (x / 2 powi q)" by (rule roundHalfEven_nonneg)
  then show "0 \<le> r" using p by (simp add: r_def)
  from roundHalfEven_bounds [of "x / 2 powi q"]
  have "\<bar>of_int (roundHalfEven (x / 2 powi q)) - x / 2 powi q\<bar> \<le> 1 / 2" by linarith
  then have "\<bar>of_int (roundHalfEven (x / 2 powi q)) - x / 2 powi q\<bar> * 2 powi q
      \<le> 1 / 2 * 2 powi q"
    using p by (intro mult_right_mono) simp_all
  moreover have "\<bar>of_int (roundHalfEven (x / 2 powi q)) - x / 2 powi q\<bar> * 2 powi q = \<bar>r - x\<bar>"
  proof -
    have "\<bar>of_int (roundHalfEven (x / 2 powi q)) - x / 2 powi q\<bar> * 2 powi q
        = \<bar>(of_int (roundHalfEven (x / 2 powi q)) - x / 2 powi q) * 2 powi q\<bar>"
      using p by (simp add: abs_mult)
    also have "(of_int (roundHalfEven (x / 2 powi q)) - x / 2 powi q) * 2 powi q = r - x"
      using p by (simp add: r_def algebra_simps)
    finally show ?thesis .
  qed
  ultimately show "\<bar>r - x\<bar> \<le> 2 powi q / 2" by simp
  show "round64_pos x = (if 2 powi 1024 \<le> r then PInf else Fin r)"
    by (simp add: round64_pos_def Let_def q_def r_def)
qed

lemma round64_pos_below_2_43:
  assumes "0 < x" and "x < 2 ^ 43"
  shows "\<exists>r. round64_pos x = Fin r \<and> 0 \<le> r \<and> r \<le> x + 1 / 2"
proof -
  define q where "q = max (ilog2 x - 52) (- 1074)"
  define r where "r = rat_of_int (roundHalfEven (x / 2 powi q)) * 2 powi q"
  note acc = round64_pos_accuracy [OF assms(1), folded q_def r_def]
  from ilog2_bounds [OF assms(1)] assms(2) have "(2::rat) powi ilog2 x < 2 powi 43" by simp
  then have "ilog2 x < 43" by (rule power_int_le_imp_less_exp [rotated]) simp_all
  then have "q \<le> 0" by (simp add: q_def)
  then have "(2::rat) powi q \<le> 2 powi 0" by (intro power_int_increasing) simp_all
  then have q1: "(2::rat) powi q \<le> 1" by simp
  from acc(2) q1 have le: "r \<le> x + 1 / 2" by linarith
  with assms(2) have "r < 2 ^ 43 + 1 / 2" by linarith
  also have "\<dots> < (2::rat) ^ 1024" by simp
  finally have "\<not> 2 powi 1024 \<le> r" by simp
  with acc(3) have "round64_pos x = Fin r" by simp
  with acc(1) le show ?thesis by blast
qed

lemma round64_below_2_43:
  assumes "0 \<le> x" and "x < 2 ^ 43"
  shows "\<exists>r. round64 x = Fin r \<and> 0 \<le> r \<and> r \<le> x + 1 / 2"
proof (cases "x = 0")
  case True
  then show ?thesis by (simp add: round64_def)
next
  case False
  with assms(1) have "0 < x" by simp
  from round64_pos_below_2_43 [OF this assms(2)] \<open>0 < x\<close> show ?thesis
    by (simp add: round64_def)
qed

section \<open>Evaluation on numerals and literals\<close>

lemma bitLength_numeral:
  "bitLength 0 = 0" "bitLength 1 = 1"
  "bitLength (numeral (Num.Bit0 n)) = bitLength (numeral n) + 1"
  "bitLength (numeral (Num.Bit1 n)) = bitLength (numeral n) + 1"
  "bitLength (- numeral n) = 0"
  by (subst bitLength.simps, simp)+

lemma power_int_numeral_base:
  "(numeral b :: rat) powi q = (if 0 \<le> q then numeral b ^ nat q else 1 / numeral b ^ nat (- q))"
  by (simp add: power_int_def inverse_eq_divide power_one_over)

lemma floor_rat_numeral:
  "\<lfloor>(numeral a :: rat) / numeral b\<rfloor> = numeral a div numeral b"
  by (metis floor_divide_of_int_eq of_int_numeral)

lemma ceiling_rat_numeral:
  "\<lceil>(numeral a :: rat) / numeral b\<rceil> = - (- numeral a div numeral b)"
  by (metis ceiling_def floor_divide_of_int_eq minus_divide_left of_int_minus of_int_numeral)

lemmas round64_eval =
  round64_def round64_pos_def ilog2_def roundHalfEven_def Let_def
  bitLength_numeral power_int_numeral_base floor_rat_numeral ceiling_rat_numeral

lemmas StringToNumber_eval =
  str_def ch_def StringToNumber_def trimString_def isStrWhiteSpaceChar_def nonDecimalIntegerLiteral_def
  strDecimalLiteral_def strUnsignedDecimalLiteral_def exponentPart_def signedInteger_def
  allDigits_def digitsMV_def decimalDigit_def hexDigit_def octalDigit_def binaryDigit_def

lemma LAMPORTS_PER_SOL_value: "LAMPORTS_PER_SOL = Fin 1000000000"
  by (simp add: LAMPORTS_PER_SOL_def round64_eval)

lemma MAX_INVESTMENT_value: "MAX_INVESTMENT = Fin 5000"
  by (simp add: MAX_INVESTMENT_def round64_eval)

lemma MIN_INVESTMENT_value:
  "MIN_INVESTMENT = Fin (3022314549036573 / 302231454903657293676544)"
  by (simp add: MIN_INVESTMENT_def round64_eval)

section \<open>The rounding of integers and of amounts within the bounds\<close>

lemma roundHalfEven_of_int: "roundHalfEven (of_int j) = j"
  by (simp add: roundHalfEven_def)

lemma round64_pos_relative:
  assumes "1 \<le> x" and "x < 2 ^ 43"
  shows "\<exists>r. round64_pos x = Fin r \<and> 0 \<le> r \<and> \<bar>r - x\<bar> \<le> x / 2 ^ 53"
proof -
  have pos: "0 < x" using assms(1) by simp
  define q where "q = max (ilog2 x - 52) (- 1074)"
  define r where "r = rat_of_int (roundHalfEven (x / 2 powi q)) * 2 powi q"
  note acc = round64_pos_accuracy [OF pos, folded q_def r_def]
  from ilog2_bounds [OF pos] assms have b: "(2::rat) powi ilog2 x \<le> x"
    "(2::rat) powi ilog2 x < 2 powi 43" "(2::rat) powi 0 < 2 powi (ilog2 x + 1)" by simp_all
  from b(2) have hi: "ilog2 x < 43" by (rule power_int_le_imp_less_exp [rotated]) simp_all
  have lo: "0 \<le> ilog2 x"
  proof (rule ccontr)
    assume "\<not> 0 \<le> ilog2 x"
    then have "ilog2 x + 1 \<le> 0" by simp
    then have "(2::rat) powi (ilog2 x + 1) \<le> 2 powi 0" by (intro power_int_increasing) simp_all
    with b(3) show False by simp
  qed
  then have q: "q = ilog2 x - 52" by (simp add: q_def)
  have "(2::rat) powi q / 2 = 2 powi ilog2 x / 2 ^ 53"
    unfolding q by (simp add: power_int_diff)
  also have "\<dots> \<le> x / 2 ^ 53" using b(1) by (simp add: divide_right_mono)
  finally have rel: "\<bar>r - x\<bar> \<le> x / 2 ^ 53" using acc(2) by simp
  have "x / 2 ^ 53 \<le> x" using pos by (simp add: field_simps)
  with rel assms(2) have "r < 2 ^ 43 + 2 ^ 43" by linarith
  also have "\<dots> < (2::rat) ^ 1024" by simp
  finally have "\<not> 2 powi 1024 \<le> r" by simp
  with acc(3) have "round64_pos x = Fin r" by simp
  with acc(1) rel show ?thesis by blast
qed

lemma round64_integer:
  assumes "0 \<le> k" and "k < 2 ^ 53"
  shows "round64 (of_int k) = Fin (of_int k)"
proof (cases "k = 0")
  case True
  then show ?thesis by (simp add: round64_def)
next
  case False
  define x where "x = rat_of_int k"
  have pos: "0 < x" "1 \<le> x" using False assms(1) by (simp_all add: x_def)
  define q where "q = max (ilog2 x - 52) (- 1074)"
  have "x < 2 ^ 53" using assms(2) unfolding x_def by (metis of_int_less_iff of_int_numeral of_int_power)
  with ilog2_bounds [OF pos(1)] have "(2::rat) powi ilog2 x < 2 powi 53" by simp
  then have "ilog2 x < 53" by (rule power_int_le_imp_less_exp [rotated]) simp_all
  then have q0: "q \<le> 0" by (simp add: q_def)
  define n where "n = nat (- q)"
  have pq: "(2::rat) powi q = 1 / 2 ^ n"
    using q0 by (simp add: n_def power_int_def inverse_eq_divide power_one_over)
  have "x / 2 powi q = rat_of_int (k * 2 ^ n)" by (simp add: pq x_def)
  then have "roundHalfEven (x / 2 powi q) = k * 2 ^ n" by (simp only: roundHalfEven_of_int)
  then have r: "rat_of_int (roundHalfEven (x / 2 powi q)) * 2 powi q = x"
    by (simp add: pq x_def)
  have "x < 2 ^ 1024" using \<open>x < 2 ^ 53\<close> by (rule less_trans) simp
  then have "round64_pos x = Fin x"
    using r by (simp add: round64_pos_def Let_def q_def [symmetric])
  with pos show ?thesis by (simp add: round64_def x_def)
qed

lemma roundHalfEven_ge_int: "of_int j \<le> y \<Longrightarrow> j \<le> roundHalfEven y"
proof -
  assume "of_int j \<le> y"
  then have "j \<le> \<lfloor>y\<rfloor>" by (simp add: le_floor_iff)
  then show ?thesis by (simp add: roundHalfEven_def Let_def)
qed

lemma roundHalfEven_le_int: "y \<le> of_int j \<Longrightarrow> roundHalfEven y \<le> j"
proof -
  assume le: "y \<le> of_int j"
  show ?thesis
  proof (cases "y = of_int j")
    case True
    then show ?thesis by (simp add: roundHalfEven_of_int)
  next
    case False
    with le have "y < of_int j" by simp
    then have "\<lfloor>y\<rfloor> < j" by (simp add: floor_less_iff)
    then show ?thesis by (simp add: roundHalfEven_def Let_def)
  qed
qed

lemma round64_pos_between_integers:
  assumes "1 \<le> x" and "x < 2 ^ 43" and "round64_pos x = Fin r"
  shows "of_int \<lfloor>x\<rfloor> \<le> r \<and> r \<le> of_int \<lfloor>x\<rfloor> + 1"
proof -
  have pos: "0 < x" using assms(1) by simp
  define q where "q = max (ilog2 x - 52) (- 1074)"
  from ilog2_bounds [OF pos] assms(2) have "(2::rat) powi ilog2 x < 2 powi 43" by simp
  then have "ilog2 x < 43" by (rule power_int_le_imp_less_exp [rotated]) simp_all
  then have q0: "q \<le> 0" by (simp add: q_def)
  define n where "n = nat (- q)"
  have pq: "(2::rat) powi q = 1 / 2 ^ n"
    using q0 by (simp add: n_def power_int_def inverse_eq_divide power_one_over)
  define m where "m = roundHalfEven (x / 2 powi q)"
  have "x < 2 ^ 1024" using assms(2) by (rule less_trans) simp
  have r: "r = rat_of_int m / 2 ^ n"
    using assms(3) by (simp add: round64_pos_def Let_def q_def [symmetric] m_def pq split: if_splits)
  have scaled: "x / 2 powi q = x * 2 ^ n" by (simp add: pq)
  have "rat_of_int (\<lfloor>x\<rfloor> * 2 ^ n) \<le> x * 2 ^ n" by simp
  then have "\<lfloor>x\<rfloor> * 2 ^ n \<le> m" unfolding m_def scaled by (rule roundHalfEven_ge_int)
  then have "rat_of_int (\<lfloor>x\<rfloor> * 2 ^ n) \<le> rat_of_int m" by (simp only: of_int_le_iff)
  then have lo: "of_int \<lfloor>x\<rfloor> \<le> r" by (simp add: r field_simps)
  have "x \<le> rat_of_int (\<lfloor>x\<rfloor> + 1)" by simp linarith
  then have "x * 2 ^ n \<le> rat_of_int ((\<lfloor>x\<rfloor> + 1) * 2 ^ n)" by simp
  then have "m \<le> (\<lfloor>x\<rfloor> + 1) * 2 ^ n" unfolding m_def scaled by (rule roundHalfEven_le_int)
  then have "rat_of_int m \<le> rat_of_int ((\<lfloor>x\<rfloor> + 1) * 2 ^ n)" by (simp only: of_int_le_iff)
  then have hi: "r \<le> of_int \<lfloor>x\<rfloor> + 1" by (simp add: r field_simps)
  from lo hi show ?thesis ..
qed

text \<open>Below \<open>2\<^sup>4\<^sup>3\<close> the unit in the last place is a negative power of two.\<close>

lemma round64_pos_scaled:
  assumes "0 < x" and "x < 2 ^ 43"
  obtains n where "int n = - max (ilog2 x - 52) (- 1074)"
    and "round64_pos x = Fin (rat_of_int (roundHalfEven (x * 2 ^ n)) / 2 ^ n)"
proof -
  define q where "q = max (ilog2 x - 52) (- 1074)"
  from ilog2_bounds [OF assms(1)] assms(2) have "(2::rat) powi ilog2 x < 2 powi 43" by simp
  then have e: "ilog2 x < 43" by (rule power_int_le_imp_less_exp [rotated]) simp_all
  then have q0: "q \<le> 0" by (simp add: q_def)
  define n where "n = nat (- q)"
  have pq: "(2::rat) powi q = 1 / 2 ^ n"
    using q0 by (simp add: n_def power_int_def inverse_eq_divide power_one_over)
  define r where "r = rat_of_int (roundHalfEven (x / 2 powi q)) * 2 powi q"
  note acc = round64_pos_accuracy [OF assms(1), folded q_def r_def]
  have "(2::rat) powi q \<le> 2 powi 0" using q0 by (intro power_int_increasing) simp_all
  then have "(2::rat) powi q \<le> 1" by simp
  with acc(2) have "r \<le> x + 1 / 2" by linarith
  with assms(2) have "r < 2 ^ 43 + 1 / 2" by linarith
  also have "\<dots> < (2::rat) ^ 1024" by simp
  finally have "\<not> 2 powi 1024 \<le> r" by simp
  with acc(3) have "round64_pos x = Fin r" by simp
  then have "round64_pos x = Fin (rat_of_int (roundHalfEven (x * 2 ^ n)) / 2 ^ n)"
    by (simp add: r_def pq)
  moreover have "int n = - max (ilog2 x - 52) (- 1074)" using q0 by (simp add: n_def q_def)
  ultimately show ?thesis by (rule that [rotated])
qed

lemma round64_in_range:
  assumes "3022314549036573 / 302231454903657293676544 \<le> x" and "x \<le> 5000"
  shows "\<exists>r. round64 x = Fin r
           \<and> 3022314549036573 / 302231454903657293676544 \<le> r \<and> r \<le> 5000"
proof -
  have pos: "0 < x" using assms(1) by (rule less_le_trans [rotated]) simp
  have small: "x < 2 ^ 43" using assms(2) by (rule le_less_trans) simp
  from round64_pos_scaled [OF pos small] obtain n where
    n: "int n = - max (ilog2 x - 52) (- 1074)"
    and r: "round64_pos x = Fin (rat_of_int (roundHalfEven (x * 2 ^ n)) / 2 ^ n)" by blast
  define m where "m = roundHalfEven (x * 2 ^ n)"
  have "x * 2 ^ n \<le> rat_of_int (5000 * 2 ^ n)" using assms(2) by simp
  then have "m \<le> 5000 * 2 ^ n" unfolding m_def by (rule roundHalfEven_le_int)
  then have "rat_of_int m \<le> rat_of_int (5000 * 2 ^ n)" by (simp only: of_int_le_iff)
  then have hi: "rat_of_int m / 2 ^ n \<le> 5000" by (simp add: field_simps)
  have b: "(2::rat) powi ilog2 x \<le> x" "x < 2 powi (ilog2 x + 1)"
    using ilog2_bounds [OF pos] by simp_all
  have "(2::rat) powi (- 27) \<le> 3022314549036573 / 302231454903657293676544"
    by (simp add: power_int_numeral_base)
  with assms(1) b(2) have "(2::rat) powi (- 27) < 2 powi (ilog2 x + 1)" by linarith
  then have "- 27 < ilog2 x + 1"
    by (metis less_irrefl not_le power_int_increasing one_le_numeral not_less)
  then have e: "- 27 \<le> ilog2 x" by simp
  then have n': "int n = 52 - ilog2 x" using n by simp
  have lo: "3022314549036573 / 302231454903657293676544 \<le> rat_of_int m / 2 ^ n"
  proof (cases "ilog2 x = - 27")
    case True
    with n' have n79: "n = 79" by simp
    have "rat_of_int 6044629098073146 \<le> x * 2 ^ n"
      using assms(1) unfolding n79 by simp
    then have "6044629098073146 \<le> m" unfolding m_def by (rule roundHalfEven_ge_int)
    then have "rat_of_int 6044629098073146 \<le> rat_of_int m" by (simp only: of_int_le_iff)
    then show ?thesis unfolding n79 by simp
  next
    case False
    with e have e26: "- 26 \<le> ilog2 x" by simp
    have "(2::rat) ^ 52 = 2 powi (ilog2 x + int n)" using n' by simp
    also have "\<dots> = 2 powi ilog2 x * 2 ^ n" by (simp add: power_int_add)
    also have "\<dots> \<le> x * 2 ^ n" using b(1) by (intro mult_right_mono) simp_all
    finally have "rat_of_int (2 ^ 52) \<le> x * 2 ^ n" by simp
    then have "2 ^ 52 \<le> m" unfolding m_def by (rule roundHalfEven_ge_int)
    then have "rat_of_int (2 ^ 52) \<le> rat_of_int m" by (simp only: of_int_le_iff)
    then have "(2::rat) ^ 52 / 2 ^ n \<le> rat_of_int m / 2 ^ n"
      by (simp add: divide_right_mono)
    moreover have "(2::rat) ^ 52 / 2 ^ n = 2 powi ilog2 x"
    proof -
      have "(2::rat) ^ 52 / 2 ^ n = 2 powi (52 - int n)"
        by (simp add: power_int_diff)
      then show ?thesis using n' by simp
    qed
    moreover have "(2::rat) powi (- 26) \<le> 2 powi ilog2 x"
      using e26 by (intro power_int_increasing) simp_all
    moreover have "3022314549036573 / 302231454903657293676544 \<le> (2::rat) powi (- 26)"
      by (simp add: power_int_numeral_base)
    ultimately show ?thesis by linarith
  qed
  from pos r lo hi show ?thesis by (simp add: round64_def m_def)
qed

section \<open>Properties of the payload\<close>

lemma foldr_littleEndianBytes:
  "foldr (\<lambda>b acc. unat b + 256 * acc) (littleEndianBytes k v) 0 = v mod 256 ^ k"
proof (induction k arbitrary: v)
  case 0
  show ?case by simp
next
  case (Suc k)
  have "unat (of_nat (v mod 256) :: byte) = v mod 256"
    by (simp add: unat_of_nat)
  with Suc show ?case
    by (simp add: mod_mult2_eq)
qed

lemma length_littleEndianBytes: "length (littleEndianBytes k v) = k"
  by (induction k arbitrary: v) simp_all

lemma length_setBigUint64: "length (setBigUint64 n) = 8"
  by (simp add: setBigUint64_def length_littleEndianBytes)

lemma readBigUint64_setBigUint64: "int (readBigUint64 (setBigUint64 n)) = n mod 2 ^ 64"
proof -
  have "take 8 (setBigUint64 n) = setBigUint64 n"
    by (simp add: length_setBigUint64)
  then have "readBigUint64 (setBigUint64 n) = nat (n mod 2 ^ 64) mod 256 ^ 8"
    by (simp add: readBigUint64_def setBigUint64_def foldr_littleEndianBytes)
  also have "\<dots> = nat (n mod 2 ^ 64)"
    by (intro mod_less) (simp add: nat_less_iff)
  finally show ?thesis by simp
qed

lemma NumberToBigInt_integer: "NumberToBigInt (Fin (of_int n)) = Inr n"
  by (simp add: NumberToBigInt_def isIntegralNumber_def)

lemma createInstructionData_integer:
  "createInstructionData (Fin (of_int n)) = Inr (0 # setBigUint64 n)"
  by (simp add: createInstructionData_def NumberToBigInt_integer typedArraySet_def
      length_setBigUint64 Let_def numeral_eq_Suc)

lemma lamports_in_range:
  assumes "0 \<le> a" and "a \<le> 5000"
  shows "\<exists>n. Math_floor (jsmul (Fin a) LAMPORTS_PER_SOL) = Fin (of_int n)
           \<and> 0 \<le> n \<and> n \<le> 5000000000000"
proof -
  have x: "0 \<le> a * 1000000000" "a * 1000000000 \<le> 5000000000000"
    using assms by simp_all
  then have "a * 1000000000 < 2 ^ 43" by simp
  from round64_below_2_43 [OF x(1) this] obtain r where
    r: "round64 (a * 1000000000) = Fin r" "0 \<le> r" "r \<le> a * 1000000000 + 1 / 2"
    by blast
  have "\<lfloor>r\<rfloor> \<le> \<lfloor>5000000000000 + 1 / 2 :: rat\<rfloor>"
    using r(3) x(2) by (intro floor_mono) linarith
  also have "\<dots> = 5000000000000" by (simp add: floor_unique)
  finally have "\<lfloor>r\<rfloor> \<le> 5000000000000" .
  moreover have "0 \<le> \<lfloor>r\<rfloor>" using r(2) by simp
  ultimately show ?thesis
    using r(1) by (simp add: LAMPORTS_PER_SOL_value Math_floor_def)
qed

lemma payload_shape:
  "length (0 # setBigUint64 n) = 9 \<and> (0 # setBigUint64 n) ! 0 = 0
   \<and> int (readBigUint64 (drop 1 (0 # setBigUint64 n))) = n mod 2 ^ 64"
  by (simp add: length_setBigUint64 readBigUint64_setBigUint64)

lemma validateAmount_accepts:
  assumes "fst (validateAmount env s w)"
  shows "\<exists>a. StringToNumber s = Fin a \<and> 0 < a \<and> a \<le> 5000"
proof (cases "StringToNumber s")
  case NaN
  with assms show ?thesis
    by (simp add: validateAmount_def isNaN_def Let_def split: if_splits)
next
  case PInf
  with assms show ?thesis
    by (simp add: validateAmount_def isNaN_def jsle_def jsgt_def MAX_INVESTMENT_value
        MIN_INVESTMENT_value Let_def split: if_splits)
next
  case NInf
  with assms show ?thesis
    by (simp add: validateAmount_def isNaN_def jsle_def Let_def split: if_splits)
next
  case (Fin a)
  with assms show ?thesis
    by (simp add: validateAmount_def isNaN_def jsle_def jsgt_def MAX_INVESTMENT_value
        MIN_INVESTMENT_value Let_def split: if_splits)
qed

lemma littleEndianBytes_8:
  "littleEndianBytes 8 v =
     [of_nat (v mod 256), of_nat (v div 256 mod 256),
      of_nat (v div 256 div 256 mod 256),
      of_nat (v div 256 div 256 div 256 mod 256),
      of_nat (v div 256 div 256 div 256 div 256 mod 256),
      of_nat (v div 256 div 256 div 256 div 256 div 256 mod 256),
      of_nat (v div 256 div 256 div 256 div 256 div 256 div 256 mod 256),
      of_nat (v div 256 div 256 div 256 div 256 div 256 div 256 div 256 mod 256)]"
proof -
  have "(8::nat) = Suc (Suc (Suc (Suc (Suc (Suc (Suc (Suc 0)))))))" by simp
  then show ?thesis by (simp only: littleEndianBytes.simps)
qed

lemma setBigUint64_1500000000: "setBigUint64 1500000000 = [0, 47, 104, 89, 0, 0, 0, 0]"
  by (simp add: setBigUint64_def littleEndianBytes_8)

section \<open>The validator\<close>

lemmas validateAmount_unfold =
  validateAmount_def isNaN_def jsle_def jsgt_def MIN_INVESTMENT_value MAX_INVESTMENT_value
  Let_def

lemma error_setError: "error (fst (setError m w)) = m"
  by (simp add: setError_def)

lemma amount_setError: "amount (fst (setError m w)) = amount (fst w)"
  by (simp add: setError_def)

lemma amount_setAmount: "amount (fst (setAmount v w)) = v"
  by (simp add: setAmount_def)

lemma StringToNumber_5000_01:
  "StringToNumber (str ''5000.01'') = Fin (2748784566998139 / 549755813888)"
  by (simp add: StringToNumber_eval round64_eval)

lemma StringToNumber_1_5: "StringToNumber (str ''1.5'') = Fin (3 / 2)"
  by (simp add: StringToNumber_eval round64_eval)

lemma StringToNumber_Infinity: "StringToNumber (str ''Infinity'') = PInf"
  by (simp add: StringToNumber_eval)

lemma StringToNumber_0: "StringToNumber (str ''0'') = Fin 0"
  by (simp add: StringToNumber_eval round64_eval)

lemma trimString_white_space:
  assumes "list_all isStrWhiteSpaceChar s"
  shows "trimString s = []"
proof -
  have none: "dropWhile isStrWhiteSpaceChar s = []"
    using assms by (simp add: list_all_iff)
  show ?thesis by (simp only: trimString_def none rev.simps dropWhile.simps)
qed

lemma StringToNumber_white_space: "list_all isStrWhiteSpaceChar s \<Longrightarrow> StringToNumber s = Fin 0"
  by (simp add: StringToNumber_def trimString_white_space)

lemma StringToNumber_0x10: "StringToNumber (str ''0x10'') = Fin 16"
  by (simp add: StringToNumber_eval round64_eval)

lemma StringToNumber_1e2: "StringToNumber (str ''1e2'') = Fin 100"
  by (simp add: StringToNumber_eval round64_eval)

text \<open>
  Claim C2. An input whose number is below \<open>MIN_INVESTMENT\<close> or above
  \<open>MAX_INVESTMENT\<close>, or whose number is NaN, is never accepted: \<open>validateAmount\<close>
  returns false and stores an error message, whether or not the presale has ended.
\<close>

theorem validateAmount_rejects:
  assumes "jslt (StringToNumber s) MIN_INVESTMENT \<or> jsgt (StringToNumber s) MAX_INVESTMENT
           \<or> isNaN (StringToNumber s)"
  shows "\<not> fst (validateAmount env s w)
         \<and> error (fst (snd (validateAmount env s w))) \<noteq> []"
proof (cases "StringToNumber s")
  case (Fin a)
  with assms show ?thesis
    by (auto simp: validateAmount_unfold error_setError)
qed (simp_all add: validateAmount_unfold error_setError)

theorem validateAmount_rejects_witness:
  "jsgt (StringToNumber (str ''5000.01'')) MAX_INVESTMENT
   \<and> validateAmount openEnv (str ''5000.01'') (enteredState, [])
       = (False, (enteredState\<lparr>error := [Str ''Maximum investment is '', Subst MAX_INVESTMENT,
                                            Str '' SOL'']\<rparr>,
                  [SetError [Str ''Maximum investment is '', Subst MAX_INVESTMENT, Str '' SOL'']]))"
proof -
  have gt: "jsgt (StringToNumber (str ''5000.01'')) MAX_INVESTMENT"
    by (simp add: StringToNumber_5000_01 jsgt_def MAX_INVESTMENT_value)
  then have "\<not> fst (validateAmount openEnv (str ''5000.01'') (enteredState, []))"
    using validateAmount_rejects [of "(str ''5000.01'')" openEnv "(enteredState, [])"] by simp
  moreover have "validateAmount openEnv (str ''5000.01'') (enteredState, [])
      = (False, (enteredState\<lparr>error := [Str ''Maximum investment is '', Subst MAX_INVESTMENT,
                                            Str '' SOL'']\<rparr>,
                  [SetError [Str ''Maximum investment is '', Subst MAX_INVESTMENT, Str '' SOL'']]))"
    by (simp add: validateAmount_def StringToNumber_5000_01 isNaN_def jsle_def jsgt_def
        MIN_INVESTMENT_value setError_def openEnv_def)
       (simp add: MAX_INVESTMENT_value)
  ultimately show ?thesis using gt by simp
qed

text \<open>
  Claim C3. While the presale is open, an input whose number is a finite \<open>a\<close> with
  \<open>MIN_INVESTMENT \<le> a \<le> MAX_INVESTMENT\<close> is accepted: \<open>validateAmount\<close> returns true
  and clears the stored error, changing nothing else. The function returns no number: the
  amount stays the string the user entered, and after \<open>handleAmountChange\<close> the stored
  string still denotes exactly \<open>a\<close>.
\<close>

theorem validateAmount_accepts_range:
  assumes "StringToNumber s = Fin a"
    and "jsle MIN_INVESTMENT (Fin a)" and "jsle (Fin a) MAX_INVESTMENT"
    and "\<not> isPresaleEnded env"
  shows "validateAmount env s w = (True, setError [] w)
         \<and> error (fst (handleAmountChange env s w)) = []
         \<and> StringToNumber (amount (fst (handleAmountChange env s w))) = Fin a"
proof -
  have "validateAmount env s w' = (True, setError [] w')" for w'
    using assms by (simp add: validateAmount_unfold)
  with assms(1) show ?thesis
    by (simp add: handleAmountChange_def error_setError amount_setError amount_setAmount)
qed

theorem validateAmount_accepts_range_witness:
  "StringToNumber (str ''1.5'') = Fin (3 / 2)
   \<and> jsle MIN_INVESTMENT (Fin (3 / 2)) \<and> jsle (Fin (3 / 2)) MAX_INVESTMENT
   \<and> \<not> isPresaleEnded openEnv
   \<and> validateAmount openEnv (str ''1.5'') (enteredState\<lparr>error := [Str ''Presale has ended'']\<rparr>, [])
       = (True, (enteredState, [SetError []]))
   \<and> StringToNumber (amount (fst (handleAmountChange openEnv (str ''1.5'') (enteredState, [])))) = Fin (3 / 2)"
proof -
  have h: "jsle MIN_INVESTMENT (Fin (3 / 2))" "jsle (Fin (3 / 2)) MAX_INVESTMENT"
    "\<not> isPresaleEnded openEnv"
    by (simp_all add: jsle_def MIN_INVESTMENT_value MAX_INVESTMENT_value openEnv_def)
  from validateAmount_accepts_range [OF StringToNumber_1_5 h,
      of "(enteredState\<lparr>error := [Str ''Presale has ended'']\<rparr>, [])"]
    validateAmount_accepts_range [OF StringToNumber_1_5 h, of "(enteredState, [])"]
    StringToNumber_1_5 h
  show ?thesis by (simp add: setError_def enteredState_def)
qed

text \<open>
  Claim C4 as stated fails: the input \<open>Infinity\<close> does not parse to a finite number, yet
  it passes the test \<open>isNaN(numAmount) || numAmount <= 0\<close> and is rejected by the
  comparison with \<open>MAX_INVESTMENT\<close>, with the message of the maximum.
\<close>

theorem validateAmount_Infinity_counterexample:
  "\<not> isPresaleEnded openEnv
   \<and> StringToNumber (str ''Infinity'') = PInf
   \<and> error (fst (snd (validateAmount openEnv (str ''Infinity'') (enteredState, []))))
       = [Str ''Maximum investment is '', Subst (Fin 5000), Str '' SOL'']
   \<and> error (fst (snd (validateAmount openEnv (str ''Infinity'') (enteredState, []))))
       \<noteq> [Str ''Please enter a valid amount'']"
  by (simp add: validateAmount_unfold StringToNumber_Infinity error_setError openEnv_def)

text \<open>
  Claim C4, amended. While the presale is open, an input whose number is NaN or is at
  most 0 (minus infinity included) gets the message of the invalid amount, and an input
  whose number is plus infinity gets the message of the maximum.
\<close>

theorem validateAmount_invalid_amount:
  assumes "\<not> isPresaleEnded env"
  shows "(isNaN (StringToNumber s) \<or> jsle (StringToNumber s) (Fin 0) \<longrightarrow>
            validateAmount env s w = (False, setError [Str ''Please enter a valid amount''] w))
         \<and> (StringToNumber s = PInf \<longrightarrow>
            validateAmount env s w
              = (False, setError [Str ''Maximum investment is '', Subst MAX_INVESTMENT,
                                  Str '' SOL''] w))"
  using assms by (simp add: validateAmount_def isNaN_def jsle_def jsgt_def
      MIN_INVESTMENT_value Let_def) (simp add: MAX_INVESTMENT_value)

theorem validateAmount_invalid_amount_witness:
  "\<not> isPresaleEnded openEnv
   \<and> jsle (StringToNumber (str ''0'')) (Fin 0)
   \<and> validateAmount openEnv (str ''0'') (enteredState, [])
       = (False, (enteredState\<lparr>error := [Str ''Please enter a valid amount'']\<rparr>,
                  [SetError [Str ''Please enter a valid amount'']]))
   \<and> StringToNumber (str ''Infinity'') = PInf
   \<and> validateAmount openEnv (str ''Infinity'') (enteredState, [])
       = (False, (enteredState\<lparr>error := [Str ''Maximum investment is '', Subst MAX_INVESTMENT,
                                            Str '' SOL'']\<rparr>,
                  [SetError [Str ''Maximum investment is '', Subst MAX_INVESTMENT, Str '' SOL'']]))"
proof -
  have h: "\<not> isPresaleEnded openEnv" by (simp add: openEnv_def)
  have z: "jsle (StringToNumber (str ''0'')) (Fin 0)" by (simp add: StringToNumber_0 jsle_def)
  from validateAmount_invalid_amount [OF h, of "(str ''0'')" "(enteredState, [])"]
    validateAmount_invalid_amount [OF h, of "(str ''Infinity'')" "(enteredState, [])"]
    h z StringToNumber_Infinity
  show ?thesis by (simp add: setError_def)
qed

section \<open>The payload of an accepted amount\<close>

text \<open>What the validator has accepted is a number between the two bounds.\<close>

lemma validateAmount_accepts_bounds:
  assumes "fst (validateAmount env s w)"
  shows "\<exists>a. StringToNumber s = Fin a
           \<and> 3022314549036573 / 302231454903657293676544 \<le> a \<and> a \<le> 5000"
proof (cases "StringToNumber s")
  case (Fin a)
  with assms show ?thesis
    by (simp add: validateAmount_def isNaN_def jsle_def jsgt_def MAX_INVESTMENT_value
        MIN_INVESTMENT_value Let_def split: if_splits)
qed (use assms in \<open>simp_all add: validateAmount_def isNaN_def jsle_def jsgt_def
        MAX_INVESTMENT_value MIN_INVESTMENT_value Let_def split: if_splits\<close>)

text \<open>The product of an accepted amount with \<open>LAMPORTS_PER_SOL\<close>, and its floor.\<close>

lemma lamports_product:
  assumes "3022314549036573 / 302231454903657293676544 \<le> a" and "a \<le> 5000"
  shows "\<exists>r. jsmul (Fin a) LAMPORTS_PER_SOL = Fin r
           \<and> \<bar>r - a * 1000000000\<bar> \<le> a * 1000000000 / 2 ^ 53
           \<and> of_int \<lfloor>a * 1000000000\<rfloor> \<le> r \<and> r \<le> of_int \<lfloor>a * 1000000000\<rfloor> + 1
           \<and> 0 \<le> \<lfloor>r\<rfloor> \<and> \<lfloor>r\<rfloor> < 2 ^ 64"
proof -
  define x where "x = a * 1000000000"
  have "(1::rat) \<le> 3022314549036573 / 302231454903657293676544 * 1000000000" by simp
  also have "\<dots> \<le> x" unfolding x_def using assms(1) by (intro mult_right_mono) simp_all
  finally have x1: "1 \<le> x" .
  have "x \<le> 5000 * 1000000000" unfolding x_def using assms(2) by (intro mult_right_mono) simp_all
  then have x2: "x < 2 ^ 43" by simp
  from round64_pos_relative [OF x1 x2] obtain r where
    r: "round64_pos x = Fin r" "0 \<le> r" "\<bar>r - x\<bar> \<le> x / 2 ^ 53" by blast
  note between = round64_pos_between_integers [OF x1 x2 r(1)]
  have "\<lfloor>x\<rfloor> \<le> \<lfloor>5000 * 1000000000 :: rat\<rfloor>"
    using \<open>x \<le> 5000 * 1000000000\<close> by (rule floor_mono)
  then have fx: "\<lfloor>x\<rfloor> \<le> 5000000000000" by simp
  have "\<lfloor>r\<rfloor> \<le> \<lfloor>x\<rfloor> + 1"
    using between by (metis floor_mono floor_of_int of_int_1 of_int_add)
  also have "\<dots> \<le> 5000000000000 + 1" using fx by linarith
  also have "\<dots> < (2::int) ^ 64" by simp
  finally have "\<lfloor>r\<rfloor> < 2 ^ 64" .
  moreover have "0 \<le> \<lfloor>r\<rfloor>" using r(2) by simp
  moreover have "jsmul (Fin a) LAMPORTS_PER_SOL = Fin r"
    using r(1) x1 by (simp add: LAMPORTS_PER_SOL_value round64_def x_def)
  ultimately show ?thesis using r(3) between unfolding x_def by blast
qed

text \<open>The inputs \<open>0.3\<close>, \<open>8.2\<close> and \<open>1.5\<close>: the number read, the product, the payload.\<close>

lemma StringToNumber_0_3:
  "StringToNumber (str ''0.3'') = Fin (5404319552844595 / 18014398509481984)"
  by (simp add: StringToNumber_eval round64_eval)

lemma StringToNumber_8_2:
  "StringToNumber (str ''8.2'') = Fin (2308094809027379 / 281474976710656)"
  by (simp add: StringToNumber_eval round64_eval)

lemma product_0_3:
  "jsmul (Fin (5404319552844595 / 18014398509481984)) LAMPORTS_PER_SOL = Fin 300000000"
  by (simp add: LAMPORTS_PER_SOL_value round64_eval)

lemma product_8_2:
  "jsmul (Fin (2308094809027379 / 281474976710656)) LAMPORTS_PER_SOL
     = Fin (8598323199999999 / 1048576)"
  by (simp add: LAMPORTS_PER_SOL_value round64_eval)

lemma product_1_5: "jsmul (Fin (3 / 2)) LAMPORTS_PER_SOL = Fin 1500000000"
  by (simp add: LAMPORTS_PER_SOL_value round64_eval)

lemma validateAmount_openEnv:
  assumes "StringToNumber s = Fin a"
    and "3022314549036573 / 302231454903657293676544 \<le> a" and "a \<le> 5000"
  shows "validateAmount openEnv s w = (True, setError [] w)"
  using assms
  by (simp add: validateAmount_def openEnv_def isNaN_def jsle_def jsgt_def
      MIN_INVESTMENT_value MAX_INVESTMENT_value)

lemma createInstructionData_300000000:
  "createInstructionData (Fin 300000000) = Inr [0, 0, 163, 225, 17, 0, 0, 0, 0]"
  using createInstructionData_integer [of 300000000]
  by (simp add: setBigUint64_def littleEndianBytes_8)

lemma createInstructionData_8199999999:
  "createInstructionData (Fin 8199999999) = Inr [0, 255, 17, 194, 232, 1, 0, 0, 0]"
  using createInstructionData_integer [of 8199999999]
  by (simp add: setBigUint64_def littleEndianBytes_8)

lemma createInstructionData_1500000000:
  "createInstructionData (Fin 1500000000) = Inr [0, 0, 47, 104, 89, 0, 0, 0, 0]"
  using createInstructionData_integer [of 1500000000]
  by (simp add: setBigUint64_def littleEndianBytes_8)

text \<open>
  Claim C1 as stated fails: bytes 1 to 8 are not the floor of the amount times \<open>10\<^sup>9\<close>,
  because the number read and the product are both rounded to binary64 before
  \<open>Math.floor\<close>. The input \<open>8.2\<close> is accepted and its payload holds 8199999999 lamports,
  one less than the floor of 8.2 times \<open>10\<^sup>9\<close>; the input \<open>0.3\<close> is accepted and its payload
  holds 300000000 lamports, one more than the floor of the number read times \<open>10\<^sup>9\<close>.
\<close>

theorem lamports_not_exact_floor_counterexample:
  "fst (validateAmount openEnv (str ''0.3'') (enteredState, []))
   \<and> StringToNumber (str ''0.3'') = Fin (5404319552844595 / 18014398509481984)
   \<and> createInstructionData (Math_floor (jsmul (StringToNumber (str ''0.3'')) LAMPORTS_PER_SOL))
       = Inr [0, 0, 163, 225, 17, 0, 0, 0, 0]
   \<and> readBigUint64 (drop 1 [0, 0, 163, 225, 17, 0, 0, 0, 0]) = 300000000
   \<and> \<lfloor>(5404319552844595 / 18014398509481984 :: rat) * 1000000000\<rfloor> = 299999999
   \<and> fst (validateAmount openEnv (str ''8.2'') (enteredState, []))
   \<and> createInstructionData (Math_floor (jsmul (StringToNumber (str ''8.2'')) LAMPORTS_PER_SOL))
       = Inr [0, 255, 17, 194, 232, 1, 0, 0, 0]
   \<and> readBigUint64 (drop 1 [0, 255, 17, 194, 232, 1, 0, 0, 0]) = 8199999999
   \<and> StringToNumber (str ''8.2'') = round64 (82 / 10)
   \<and> \<lfloor>(82 / 10 :: rat) * 1000000000\<rfloor> = 8200000000"
proof -
  have d8: "StringToNumber (str ''8.2'') = round64 (82 / 10)"
    by (simp add: StringToNumber_8_2 round64_eval)
  have v3: "fst (validateAmount openEnv (str ''0.3'') (enteredState, []))"
    by (simp add: validateAmount_openEnv [OF StringToNumber_0_3])
  have v8: "fst (validateAmount openEnv (str ''8.2'') (enteredState, []))"
    by (simp add: validateAmount_openEnv [OF StringToNumber_8_2])
  have p3: "createInstructionData
      (Math_floor (jsmul (StringToNumber (str ''0.3'')) LAMPORTS_PER_SOL))
      = Inr [0, 0, 163, 225, 17, 0, 0, 0, 0]"
    by (simp add: StringToNumber_0_3 product_0_3 Math_floor_def createInstructionData_300000000)
  have p8: "createInstructionData
      (Math_floor (jsmul (StringToNumber (str ''8.2'')) LAMPORTS_PER_SOL))
      = Inr [0, 255, 17, 194, 232, 1, 0, 0, 0]"
    by (simp add: StringToNumber_8_2 product_8_2 Math_floor_def floor_rat_numeral
        createInstructionData_8199999999)
  have r3: "readBigUint64 (drop 1 [0, 0, 163, 225, 17, 0, 0, 0, 0]) = 300000000"
    by (simp add: readBigUint64_def)
  have r8: "readBigUint64 (drop 1 [0, 255, 17, 194, 232, 1, 0, 0, 0]) = 8199999999"
    by (simp add: readBigUint64_def)
  have f3: "\<lfloor>(5404319552844595 / 18014398509481984 :: rat) * 1000000000\<rfloor> = 299999999"
    by (simp add: floor_rat_numeral)
  have f8: "\<lfloor>(82 / 10 :: rat) * 1000000000\<rfloor> = 8200000000"
    by simp
  from v3 v8 p3 p8 r3 r8 f3 f8 d8 StringToNumber_0_3 show ?thesis by (simp only:)
qed

text \<open>
  Claim C1, amended. For every integer \<open>n\<close> with \<open>0 \<le> n < 2\<^sup>6\<^sup>4\<close> the payload has 9 bytes,
  byte 0 is 0 and bytes 1 to 8 read as little-endian unsigned 64-bit give \<open>n\<close>. For every
  input the validator accepts, with \<open>a\<close> the number read, the payload is built, has this
  shape, and bytes 1 to 8 give the floor of the binary64 product \<open>r\<close> of \<open>a\<close> and \<open>10\<^sup>9\<close>:
  \<open>r\<close> is within \<open>a * 10\<^sup>9 / 2\<^sup>5\<^sup>3\<close> of \<open>a * 10\<^sup>9\<close>, equals it when it is an integer, and the
  floor of \<open>r\<close> is the floor of \<open>a * 10\<^sup>9\<close> or one more.
\<close>

theorem createInstructionData_lamports:
  "(0 \<le> n \<and> n < 2 ^ 64 \<longrightarrow>
      (\<exists>p. createInstructionData (Fin (of_int n)) = Inr p
         \<and> length p = 9 \<and> p ! 0 = 0
         \<and> int (readBigUint64 (drop 1 p)) = n))
   \<and> (fst (validateAmount env s w) \<longrightarrow>
      (\<exists>a r p. StringToNumber s = Fin a
         \<and> jsmul (Fin a) LAMPORTS_PER_SOL = Fin r
         \<and> \<bar>r - a * 1000000000\<bar> \<le> a * 1000000000 / 2 ^ 53
         \<and> (a * 1000000000 \<in> \<int> \<longrightarrow> r = a * 1000000000)
         \<and> \<lfloor>a * 1000000000\<rfloor> \<le> \<lfloor>r\<rfloor> \<and> \<lfloor>r\<rfloor> \<le> \<lfloor>a * 1000000000\<rfloor> + 1
         \<and> createInstructionData (Math_floor (jsmul (StringToNumber s) LAMPORTS_PER_SOL)) = Inr p
         \<and> length p = 9 \<and> p ! 0 = 0
         \<and> int (readBigUint64 (drop 1 p)) = \<lfloor>r\<rfloor>))"
proof (intro conjI impI)
  assume "0 \<le> n \<and> n < 2 ^ 64"
  then have "n mod 2 ^ 64 = n" by simp
  with payload_shape [of n] show "\<exists>p. createInstructionData (Fin (of_int n)) = Inr p
      \<and> length p = 9 \<and> p ! 0 = 0 \<and> int (readBigUint64 (drop 1 p)) = n"
    by (simp add: createInstructionData_integer)
next
  assume "fst (validateAmount env s w)"
  from validateAmount_accepts_bounds [OF this] obtain a where
    a: "StringToNumber s = Fin a" "3022314549036573 / 302231454903657293676544 \<le> a"
       "a \<le> 5000" by blast
  define x where "x = a * 1000000000"
  from lamports_product [OF a(2,3)] obtain r where
    r: "jsmul (Fin a) LAMPORTS_PER_SOL = Fin r" "\<bar>r - x\<bar> \<le> x / 2 ^ 53"
       "of_int \<lfloor>x\<rfloor> \<le> r" "r \<le> of_int \<lfloor>x\<rfloor> + 1" "0 \<le> \<lfloor>r\<rfloor>" "\<lfloor>r\<rfloor> < 2 ^ 64"
    unfolding x_def by blast
  have exact: "r = x" if "x \<in> \<int>"
  proof -
    from that obtain k where k: "x = of_int k" by (auto elim: Ints_cases)
    have "0 \<le> x" "x \<le> 5000 * 1000000000" using a(2,3) by (simp_all add: x_def)
    with k have "0 \<le> k" "k < 2 ^ 53" by simp_all
    from round64_integer [OF this] k r(1) show ?thesis
      by (simp add: LAMPORTS_PER_SOL_value x_def)
  qed
  have lo: "\<lfloor>x\<rfloor> \<le> \<lfloor>r\<rfloor>" using r(3) by (simp add: le_floor_iff)
  have hi: "\<lfloor>r\<rfloor> \<le> \<lfloor>x\<rfloor> + 1"
    using r(4) by (metis floor_mono floor_of_int of_int_1 of_int_add)
  have "\<lfloor>r\<rfloor> mod 2 ^ 64 = \<lfloor>r\<rfloor>" using r(5,6) by simp
  with payload_shape [of "\<lfloor>r\<rfloor>"]
  have shape: "length (0 # setBigUint64 \<lfloor>r\<rfloor>) = 9" "(0 # setBigUint64 \<lfloor>r\<rfloor>) ! 0 = 0"
    "int (readBigUint64 (drop 1 (0 # setBigUint64 \<lfloor>r\<rfloor>))) = \<lfloor>r\<rfloor>" by simp_all
  have built: "createInstructionData (Math_floor (jsmul (StringToNumber s) LAMPORTS_PER_SOL))
      = Inr (0 # setBigUint64 \<lfloor>r\<rfloor>)"
    by (simp add: a(1) r(1) Math_floor_def createInstructionData_integer)
  show "\<exists>a r p. StringToNumber s = Fin a
      \<and> jsmul (Fin a) LAMPORTS_PER_SOL = Fin r
      \<and> \<bar>r - a * 1000000000\<bar> \<le> a * 1000000000 / 2 ^ 53
      \<and> (a * 1000000000 \<in> \<int> \<longrightarrow> r = a * 1000000000)
      \<and> \<lfloor>a * 1000000000\<rfloor> \<le> \<lfloor>r\<rfloor> \<and> \<lfloor>r\<rfloor> \<le> \<lfloor>a * 1000000000\<rfloor> + 1
      \<and> createInstructionData (Math_floor (jsmul (StringToNumber s) LAMPORTS_PER_SOL)) = Inr p
      \<and> length p = 9 \<and> p ! 0 = 0
      \<and> int (readBigUint64 (drop 1 p)) = \<lfloor>r\<rfloor>"
    using a(1) r(1,2) exact lo hi built shape unfolding x_def
    by (intro exI [of _ a] exI [of _ r] exI [of _ "0 # setBigUint64 \<lfloor>r\<rfloor>"]) blast
qed

theorem createInstructionData_lamports_witness:
  "(0::int) \<le> 8199999999 \<and> (8199999999::int) < 2 ^ 64
   \<and> createInstructionData (Fin 8199999999) = Inr [0, 255, 17, 194, 232, 1, 0, 0, 0]
   \<and> fst (validateAmount openEnv (str ''8.2'') (enteredState, []))
   \<and> StringToNumber (str ''8.2'') = Fin (2308094809027379 / 281474976710656)
   \<and> jsmul (Fin (2308094809027379 / 281474976710656)) LAMPORTS_PER_SOL
       = Fin (8598323199999999 / 1048576)
   \<and> \<lfloor>8598323199999999 / 1048576 :: rat\<rfloor> = 8199999999
   \<and> createInstructionData (Math_floor (jsmul (StringToNumber (str ''8.2'')) LAMPORTS_PER_SOL))
       = Inr [0, 255, 17, 194, 232, 1, 0, 0, 0]
   \<and> readBigUint64 (drop 1 [0, 255, 17, 194, 232, 1, 0, 0, 0]) = 8199999999
   \<and> fst (validateAmount openEnv (str ''1.5'') (enteredState, []))
   \<and> createInstructionData (Math_floor (jsmul (StringToNumber (str ''1.5'')) LAMPORTS_PER_SOL))
       = Inr [0, 0, 47, 104, 89, 0, 0, 0, 0]
   \<and> readBigUint64 (drop 1 [0, 0, 47, 104, 89, 0, 0, 0, 0]) = 1500000000"
proof -
  have v8: "fst (validateAmount openEnv (str ''8.2'') (enteredState, []))"
    by (simp add: validateAmount_openEnv [OF StringToNumber_8_2])
  have v1: "fst (validateAmount openEnv (str ''1.5'') (enteredState, []))"
    by (simp add: validateAmount_openEnv [OF StringToNumber_1_5])
  have f8: "\<lfloor>8598323199999999 / 1048576 :: rat\<rfloor> = 8199999999"
    by (simp add: floor_rat_numeral)
  have p8: "createInstructionData
      (Math_floor (jsmul (StringToNumber (str ''8.2'')) LAMPORTS_PER_SOL))
      = Inr [0, 255, 17, 194, 232, 1, 0, 0, 0]"
    by (simp add: StringToNumber_8_2 product_8_2 Math_floor_def floor_rat_numeral
        createInstructionData_8199999999)
  have p1: "createInstructionData
      (Math_floor (jsmul (StringToNumber (str ''1.5'')) LAMPORTS_PER_SOL))
      = Inr [0, 0, 47, 104, 89, 0, 0, 0, 0]"
    by (simp add: StringToNumber_1_5 product_1_5 Math_floor_def createInstructionData_1500000000)
  from createInstructionData_lamports [of 8199999999 openEnv "str ''8.2''" "(enteredState, [])"] v8
  obtain a r p where h:
    "StringToNumber (str ''8.2'') = Fin a" "jsmul (Fin a) LAMPORTS_PER_SOL = Fin r"
    "createInstructionData (Math_floor (jsmul (StringToNumber (str ''8.2'')) LAMPORTS_PER_SOL))
       = Inr p"
    "int (readBigUint64 (drop 1 p)) = \<lfloor>r\<rfloor>" by blast
  have "Fin a = Fin (2308094809027379 / 281474976710656)"
    using h(1) by (simp only: StringToNumber_8_2)
  then have "Fin r = Fin (8598323199999999 / 1048576)"
    using h(2) by (simp only: product_8_2 jsnum.inject)
  then have "\<lfloor>r\<rfloor> = 8199999999" using f8 by (simp only: jsnum.inject)
  moreover have "p = [0, 255, 17, 194, 232, 1, 0, 0, 0]" using h(3) by (simp only: p8 sum.inject)
  ultimately have r8: "int (readBigUint64 (drop 1 [0, 255, 17, 194, 232, 1, 0, 0, 0])) = 8199999999"
    using h(4) by (simp only:)
  from createInstructionData_lamports [of 1500000000 openEnv "str ''1.5''" "(enteredState, [])"] v1
  obtain a' r' p' where h':
    "StringToNumber (str ''1.5'') = Fin a'" "jsmul (Fin a') LAMPORTS_PER_SOL = Fin r'"
    "createInstructionData (Math_floor (jsmul (StringToNumber (str ''1.5'')) LAMPORTS_PER_SOL))
       = Inr p'"
    "int (readBigUint64 (drop 1 p')) = \<lfloor>r'\<rfloor>" by blast
  have "Fin a' = Fin (3 / 2)" using h'(1) by (simp only: StringToNumber_1_5)
  then have "Fin r' = Fin 1500000000" using h'(2) by (simp only: product_1_5 jsnum.inject)
  then have "\<lfloor>r'\<rfloor> = 1500000000" by simp
  moreover have "p' = [0, 0, 47, 104, 89, 0, 0, 0, 0]" using h'(3) by (simp only: p1 sum.inject)
  ultimately have r1: "int (readBigUint64 (drop 1 [0, 0, 47, 104, 89, 0, 0, 0, 0])) = 1500000000"
    using h'(4) by (simp only:)
  from v8 v1 f8 p8 p1 r8 r1 StringToNumber_8_2 product_8_2 createInstructionData_8199999999
  show ?thesis by simp
qed

section \<open>The payload builder on arbitrary numbers\<close>

lemma replicate_9_bytes: "(replicate 9 (0 :: byte))[0 := 0] = [0, 0, 0, 0, 0, 0, 0, 0, 0]"
proof -
  have "(9::nat) = Suc (Suc (Suc (Suc (Suc (Suc (Suc (Suc (Suc 0))))))))" by simp
  then have "replicate 9 (0 :: byte) = [0, 0, 0, 0, 0, 0, 0, 0, 0]"
    by (simp only: replicate.simps)
  then show ?thesis by simp
qed

lemma createInstructionData_cases:
  "createInstructionData x =
     (if isIntegralNumber x then (case x of Fin q \<Rightarrow> Inr (0 # setBigUint64 \<lfloor>q\<rfloor>) | _ \<Rightarrow> Inl (notAnInteger x))
      else Inl (notAnInteger x))"
  by (cases x)
     (simp_all add: createInstructionData_def NumberToBigInt_def isIntegralNumber_def
        typedArraySet_def length_setBigUint64 replicate_9_bytes)

text \<open>
  Claim C5 as stated fails: for the negative integer \<open>-1\<close> and for \<open>2\<^sup>6\<^sup>4\<close>, which
  exceeds the unsigned 64-bit range, \<open>createInstructionData\<close> signals nothing and
  returns a payload, that of the value modulo \<open>2\<^sup>6\<^sup>4\<close>.
\<close>

theorem createInstructionData_wraps_counterexample:
  "createInstructionData (Fin (- 1)) = Inr [0, 255, 255, 255, 255, 255, 255, 255, 255]
   \<and> createInstructionData (Fin 18446744073709551616) = Inr [0, 0, 0, 0, 0, 0, 0, 0, 0]"
proof -
  have "setBigUint64 (- 1) = [255, 255, 255, 255, 255, 255, 255, 255]"
    by (simp add: setBigUint64_def littleEndianBytes_8)
  moreover have "setBigUint64 18446744073709551616 = [0, 0, 0, 0, 0, 0, 0, 0]"
    by (simp add: setBigUint64_def littleEndianBytes_8)
  ultimately show ?thesis
    using createInstructionData_integer [of "- 1"]
      createInstructionData_integer [of 18446744073709551616]
    by simp
qed

text \<open>
  Claim C5, amended. \<open>createInstructionData\<close> signals an error exactly when its
  argument is not an integral number (NaN, an infinity or a number with a fractional
  part). For every integer, negative or beyond the unsigned 64-bit range included, it
  returns the payload of byte 0 followed by the integer modulo \<open>2\<^sup>6\<^sup>4\<close>, little-endian.
\<close>

theorem createInstructionData_fails_iff:
  "createInstructionData (Fin (of_int n)) = Inr (0 # setBigUint64 n)
   \<and> int (readBigUint64 (setBigUint64 n)) = n mod 2 ^ 64
   \<and> (\<exists>e. createInstructionData x = Inl e) = (\<not> isIntegralNumber x)"
proof -
  have "(\<exists>e. createInstructionData x = Inl e) = (\<not> isIntegralNumber x)"
    by (cases x) (simp_all add: createInstructionData_cases isIntegralNumber_def)
  then show ?thesis
    by (simp add: createInstructionData_integer readBigUint64_setBigUint64)
qed

text \<open>
  Claim C6. For every amount \<open>a\<close> with \<open>0 \<le> a \<le> MAX_INVESTMENT\<close>, the number
  \<open>Math.floor(a * LAMPORTS_PER_SOL)\<close> is an integer, \<open>createInstructionData\<close> returns a
  payload for it, and reading bytes 1 to 8 of that payload as a little-endian unsigned
  64-bit integer gives that integer back.
\<close>

theorem payload_round_trip:
  assumes "jsle (Fin 0) x" and "jsle x MAX_INVESTMENT"
  shows "\<exists>n p. Math_floor (jsmul x LAMPORTS_PER_SOL) = Fin (of_int n)
           \<and> createInstructionData (Math_floor (jsmul x LAMPORTS_PER_SOL)) = Inr p
           \<and> int (readBigUint64 (drop 1 p)) = n"
proof -
  from assms obtain a where a: "x = Fin a" "0 \<le> a" "a \<le> 5000"
    by (cases x) (simp_all add: jsle_def MAX_INVESTMENT_value)
  from lamports_in_range [OF a(2,3)] obtain n where
    n: "Math_floor (jsmul (Fin a) LAMPORTS_PER_SOL) = Fin (of_int n)" "0 \<le> n"
       "n \<le> 5000000000000" by blast
  have "n mod 2 ^ 64 = n" using n(2,3) by simp
  then have "int (readBigUint64 (drop 1 (0 # setBigUint64 n))) = n"
    by (simp add: readBigUint64_setBigUint64)
  with n(1) a(1) show ?thesis
    by (simp add: createInstructionData_integer)
qed

theorem payload_round_trip_witness:
  "jsle (Fin 0) (Fin 5000) \<and> jsle (Fin 5000) MAX_INVESTMENT
   \<and> Math_floor (jsmul (Fin 5000) LAMPORTS_PER_SOL) = Fin 5000000000000
   \<and> createInstructionData (Fin 5000000000000) = Inr [0, 0, 80, 57, 39, 140, 4, 0, 0]
   \<and> readBigUint64 (drop 1 [0, 0, 80, 57, 39, 140, 4, 0, 0]) = 5000000000000"
proof -
  have h: "jsle (Fin 0) (Fin 5000)" "jsle (Fin 5000) MAX_INVESTMENT"
    by (simp_all add: jsle_def MAX_INVESTMENT_value)
  have lam: "Math_floor (jsmul (Fin 5000) LAMPORTS_PER_SOL) = Fin 5000000000000"
    by (simp add: LAMPORTS_PER_SOL_value Math_floor_def round64_eval)
  have "setBigUint64 5000000000000 = [0, 80, 57, 39, 140, 4, 0, 0]"
    by (simp add: setBigUint64_def littleEndianBytes_8)
  then have enc: "createInstructionData (Fin 5000000000000) = Inr [0, 0, 80, 57, 39, 140, 4, 0, 0]"
    using createInstructionData_integer [of 5000000000000] by simp
  from payload_round_trip [OF h] lam enc
  have "int (readBigUint64 (drop 1 [0, 0, 80, 57, 39, 140, 4, 0, 0])) = 5000000000000"
    by auto
  with h lam enc show ?thesis by simp
qed

section \<open>The submission run\<close>

lemmas step_defs = andThen_def call_def local_def setAmount_def Let_def

lemma validateAmount_effect: "\<exists>b m. validateAmount env s w = (b, setError m w)"
  unfolding validateAmount_def Let_def by (simp split: if_splits) blast

lemma tryBlock_insufficient:
  assumes "getBalance env owner = Inr balance"
    and "jslt balance (Math_floor (jsmul (StringToNumber (amount st)) LAMPORTS_PER_SOL))"
    and "GetBalance owner \<notin> set tr0"
    and "GetBalance owner \<in> set (snd (snd (tryBlock env st wallet (s0, tr0))))"
  shows "tryBlock env st wallet (s0, tr0) =
           (Inl (Error [Str ''Insufficient balance. Required: '',
                  Subst (perSol (Math_floor (jsmul (StringToNumber (amount st)) LAMPORTS_PER_SOL))),
                  Str '' SOL, Available: '', Subst (perSol balance), Str '' SOL'']),
            (s0, tr0 @ [GetConnection, GetBalance owner]))"
  using assms unfolding tryBlock_def step_defs
  by (auto split: sum.splits prod.splits if_splits)

lemma tryBlock_frame:
  "case tryBlock env st wallet w of
     (r, w') \<Rightarrow>
       \<exists>tr. snd w' = snd w @ tr
           \<and> (case r of
                 Inr u \<Rightarrow> fst w' = (fst w)\<lparr>amount := []\<rparr>
                          \<and> AddDeposit (StringToNumber (amount st)) \<in> set tr
               | Inl e \<Rightarrow> fst w' = fst w)"
  unfolding tryBlock_def step_defs
  by (auto split: sum.splits prod.splits if_splits)

lemma catchBlock_frame:
  "\<exists>r l m. catchBlock env e w = (r, (fst w, snd w @ [AddNotification l m]))"
  by (cases e) (simp_all add: catchBlock_def call_def)

lemma catchBlock_Error:
  "catchBlock env (Error m) w
     = (addNotification env ''error'' m, (fst w, snd w @ [AddNotification ''error'' m]))"
  by (simp add: catchBlock_def call_def)

lemma handleInvest_no_wallet:
  assumes "walletAddress env = None \<or> walletAddress env = Some []"
  shows "handleInvest env w
           = (addNotification env ''warning'' [Str ''Please connect your wallet''],
              (fst w, snd w @ [AddNotification ''warning'' [Str ''Please connect your wallet'']]))"
  using assms by (auto simp: handleInvest_def call_def)

lemma handleInvest_invalid:
  assumes "walletAddress env = Some wallet" and "wallet \<noteq> []"
    and "validateAmount env (amount (fst w)) w = (False, w1)"
  shows "handleInvest env w
           = (addNotification env ''error'' (error (fst w)),
              (fst w1, snd w1 @ [AddNotification ''error'' (error (fst w))]))"
  using assms by (simp add: handleInvest_def call_def Let_def)

lemma handleInvest_valid:
  assumes "walletAddress env = Some wallet" and "wallet \<noteq> []"
    and "validateAmount env (amount (fst w)) w = (True, w1)"
  shows "handleInvest env w
           = (case tryBlock env (fst w) wallet (setIsProcessing True w1) of
                (Inr u, w2) \<Rightarrow> (Inr (), setIsProcessing False w2)
              | (Inl e, w2) \<Rightarrow>
                  (case catchBlock env e w2 of (r, w3) \<Rightarrow> (r, setIsProcessing False w3)))"
  using assms by (simp add: handleInvest_def Let_def)

text \<open>The three ways a run can go, by the wallet and the validation.\<close>

lemma handleInvest_cases:
  obtains
    (no_wallet) "walletAddress env = None \<or> walletAddress env = Some []"
  | (invalid) wallet m where "walletAddress env = Some wallet" "wallet \<noteq> []"
      "validateAmount env (amount (fst w)) w = (False, setError m w)"
  | (valid) wallet m where "walletAddress env = Some wallet" "wallet \<noteq> []"
      "validateAmount env (amount (fst w)) w = (True, setError m w)"
proof (cases "walletAddress env")
  case None
  then show ?thesis using no_wallet by simp
next
  case (Some wallet)
  obtain b m where v: "validateAmount env (amount (fst w)) w = (b, setError m w)"
    using validateAmount_effect by blast
  show ?thesis
  proof (cases "wallet = []")
    case True
    with Some show ?thesis using no_wallet by simp
  next
    case False
    with Some v show ?thesis using invalid valid by (cases b) simp_all
  qed
qed

lemma lamports_1_5:
  "Math_floor (jsmul (Fin (3 / 2)) LAMPORTS_PER_SOL) = Fin 1500000000"
  by (simp add: LAMPORTS_PER_SOL_value Math_floor_def round64_eval)

lemma validateAmount_1_5:
  "\<not> isPresaleEnded env \<Longrightarrow> validateAmount env (str ''1.5'') w = (True, setError [] w)"
  by (simp add: validateAmount_def StringToNumber_1_5 isNaN_def jsle_def jsgt_def
      MIN_INVESTMENT_value MAX_INVESTMENT_value)

lemma perSol_values: "perSol (Fin 1500000000) = Fin (3 / 2)" "perSol (Fin 1000000000) = Fin 1"
  by (simp_all add: perSol_def round64_eval)

text \<open>The run in which every call succeeds: the whole trace, and the state it ends in.\<close>

lemma handleInvest_openEnv:
  "handleInvest openEnv (enteredState, []) =
     (Inr (),
      (enteredState\<lparr>amount := []\<rparr>,
       [SetError [], SetIsProcessing True, GetConnection,
        GetBalance (PublicKey ''7xKXtg2CW87d97TXJSDpbD5jBkheTqA83TZRuJosgAsU''),
        GetLatestBlockhash ''confirmed'',
        SignTransaction
          \<lparr>instructions =
             [\<lparr>keys =
                 [\<lparr>pubkey = PublicKey ''7xKXtg2CW87d97TXJSDpbD5jBkheTqA83TZRuJosgAsU'',
                   isSigner = True, isWritable = True\<rparr>,
                  \<lparr>pubkey = ADMIN_WALLET, isSigner = False, isWritable = True\<rparr>,
                  \<lparr>pubkey = SystemProgram_programId, isSigner = False, isWritable = False\<rparr>],
               programId = PROGRAM_ID,
               data = [0, 0, 47, 104, 89, 0, 0, 0, 0]\<rparr>],
           feePayer = Some (PublicKey ''7xKXtg2CW87d97TXJSDpbD5jBkheTqA83TZRuJosgAsU''),
           recentBlockhash = Some ''EkSnNWid2cvwEVnVx9aBqawnmiCNiDgp3gUdkDPTKN1N''\<rparr>,
        SendRawTransaction [1, 2, 3],
        ConfirmTransaction ''5VERv8NMvzbJMEkV8xnrLkEaWRtSz9CosKDYjCJjBRnb''
          ''EkSnNWid2cvwEVnVx9aBqawnmiCNiDgp3gUdkDPTKN1N'' (Fin 250000000),
        AddNotification ''success'' [Str ''Investment successful!''],
        AddDeposit (Fin (3 / 2)), SetAmount [], SetIsProcessing False]))"
  unfolding handleInvest_def tryBlock_def step_defs
  by (simp add: openEnv_def enteredState_def validateAmount_1_5 lamports_1_5
      StringToNumber_1_5 createInstructionData_1500000000 setError_def setIsProcessing_def)

text \<open>The same run with a wallet that holds 1 SOL only.\<close>

lemma handleInvest_low_balance:
  "handleInvest (openEnv\<lparr>getBalance := \<lambda>k. Inr (Fin 1000000000)\<rparr>) (enteredState, []) =
     (Inr (),
      (enteredState,
       [SetError [], SetIsProcessing True, GetConnection,
        GetBalance (PublicKey ''7xKXtg2CW87d97TXJSDpbD5jBkheTqA83TZRuJosgAsU''),
        AddNotification ''error''
          [Str ''Insufficient balance. Required: '', Subst (Fin (3 / 2)),
           Str '' SOL, Available: '', Subst (Fin 1), Str '' SOL''],
        SetIsProcessing False]))"
  unfolding handleInvest_def tryBlock_def catchBlock_def step_defs
  by (simp add: openEnv_def enteredState_def validateAmount_1_5 lamports_1_5
      StringToNumber_1_5 perSol_values setError_def setIsProcessing_def)

text \<open>
  Claim C7. In a run in which the network client is asked for the balance and answers
  with less than the lamports required, the wallet is never asked for a signature: the
  run notifies the insufficient-balance error, leaves the amount as it is and ends with
  the processing flag off.
\<close>

theorem insufficient_balance_aborts:
  assumes "GetBalance owner \<in> set (snd (snd (handleInvest env (st, []))))"
    and "getBalance env owner = Inr balance"
    and "jslt balance (Math_floor (jsmul (StringToNumber (amount st)) LAMPORTS_PER_SOL))"
  shows "filter isSignTransaction (snd (snd (handleInvest env (st, [])))) = []
         \<and> AddNotification ''error''
              [Str ''Insufficient balance. Required: '',
               Subst (perSol (Math_floor (jsmul (StringToNumber (amount st)) LAMPORTS_PER_SOL))),
               Str '' SOL, Available: '', Subst (perSol balance), Str '' SOL'']
             \<in> set (snd (snd (handleInvest env (st, []))))
         \<and> amount (fst (snd (handleInvest env (st, [])))) = amount st
         \<and> \<not> isProcessing (fst (snd (handleInvest env (st, []))))"
proof (cases rule: handleInvest_cases [where env = env and w = "(st, [])"])
  case no_wallet
  from assms(1) show ?thesis
    by (simp add: handleInvest_no_wallet [OF no_wallet])
next
  case (invalid wallet m)
  from assms(1) show ?thesis
    by (simp add: handleInvest_invalid [OF invalid] setError_def)
next
  case (valid wallet m)
  let ?w = "setIsProcessing True (setError m (st, []))"
  obtain r w2 where t: "tryBlock env st wallet ?w = (r, w2)"
    by (cases "tryBlock env st wallet ?w")
  from tryBlock_frame [where env = env and st = st and wallet = wallet and w = ?w] t obtain tr where
    tr: "snd w2 = snd ?w @ tr" by auto
  obtain r3 l3 m3 where c: "\<And>e. r = Inl e \<Longrightarrow>
      catchBlock env e w2 = (r3 e, (fst w2, snd w2 @ [AddNotification (l3 e) (m3 e)]))"
    using catchBlock_frame [where env = env and w = w2] by metis
  have run: "handleInvest env (st, [])
      = (case r of Inr u \<Rightarrow> (Inr (), setIsProcessing False w2)
         | Inl e \<Rightarrow> (case catchBlock env e w2 of (r', w3) \<Rightarrow> (r', setIsProcessing False w3)))"
    using handleInvest_valid [OF valid] t by (simp split: sum.splits)
  have "GetBalance owner \<in> set (snd w2)"
    using assms(1) run c by (cases r) (auto simp: setIsProcessing_def)
  then have "GetBalance owner \<in> set (snd (snd (tryBlock env st wallet ?w)))"
    using t by simp
  moreover have "GetBalance owner \<notin> set (snd ?w)"
    by (simp add: setIsProcessing_def setError_def)
  ultimately have "tryBlock env st wallet ?w =
      (Inl (Error [Str ''Insufficient balance. Required: '',
             Subst (perSol (Math_floor (jsmul (StringToNumber (amount st)) LAMPORTS_PER_SOL))),
             Str '' SOL, Available: '', Subst (perSol balance), Str '' SOL'']),
       (fst ?w, snd ?w @ [GetConnection, GetBalance owner]))"
    using tryBlock_insufficient [OF assms(2,3), where ?tr0.0 = "snd ?w" and wallet = wallet
        and ?s0.0 = "fst ?w"] by simp
  then show ?thesis
    by (simp add: handleInvest_valid [OF valid] catchBlock_Error setIsProcessing_def
        setError_def isSignTransaction_def)
qed

theorem insufficient_balance_aborts_witness:
  "GetBalance (PublicKey ''7xKXtg2CW87d97TXJSDpbD5jBkheTqA83TZRuJosgAsU'')
     \<in> set (snd (snd (handleInvest (openEnv\<lparr>getBalance := \<lambda>k. Inr (Fin 1000000000)\<rparr>)
                         (enteredState, []))))
   \<and> getBalance (openEnv\<lparr>getBalance := \<lambda>k. Inr (Fin 1000000000)\<rparr>)
        (PublicKey ''7xKXtg2CW87d97TXJSDpbD5jBkheTqA83TZRuJosgAsU'') = Inr (Fin 1000000000)
   \<and> jslt (Fin 1000000000)
        (Math_floor (jsmul (StringToNumber (amount enteredState)) LAMPORTS_PER_SOL))
   \<and> filter isSignTransaction
        (snd (snd (handleInvest (openEnv\<lparr>getBalance := \<lambda>k. Inr (Fin 1000000000)\<rparr>)
                     (enteredState, [])))) = []
   \<and> AddNotification ''error''
        [Str ''Insufficient balance. Required: '', Subst (Fin (3 / 2)),
         Str '' SOL, Available: '', Subst (Fin 1), Str '' SOL'']
       \<in> set (snd (snd (handleInvest (openEnv\<lparr>getBalance := \<lambda>k. Inr (Fin 1000000000)\<rparr>)
                           (enteredState, []))))
   \<and> amount (fst (snd (handleInvest (openEnv\<lparr>getBalance := \<lambda>k. Inr (Fin 1000000000)\<rparr>)
                          (enteredState, [])))) = (str ''1.5'')"
proof -
  let ?env = "openEnv\<lparr>getBalance := \<lambda>k. Inr (Fin 1000000000)\<rparr>"
  let ?key = "PublicKey ''7xKXtg2CW87d97TXJSDpbD5jBkheTqA83TZRuJosgAsU''"
  have called: "GetBalance ?key \<in> set (snd (snd (handleInvest ?env (enteredState, []))))"
    by (simp add: handleInvest_low_balance)
  have answer: "getBalance ?env ?key = Inr (Fin 1000000000)" by simp
  have less: "jslt (Fin 1000000000)
      (Math_floor (jsmul (StringToNumber (amount enteredState)) LAMPORTS_PER_SOL))"
    by (simp add: enteredState_def StringToNumber_1_5 lamports_1_5)
  from insufficient_balance_aborts [OF called answer less] called answer less
  show ?thesis
    by (simp add: enteredState_def StringToNumber_1_5 lamports_1_5 perSol_values)
qed







text \<open>The run in which the wallet refuses to sign.\<close>

lemma handleInvest_refused:
  "handleInvest refusingWalletEnv (enteredState, []) =
     (Inr (),
      (enteredState,
       [SetError [], SetIsProcessing True, GetConnection,
        GetBalance (PublicKey ''7xKXtg2CW87d97TXJSDpbD5jBkheTqA83TZRuJosgAsU''),
        GetLatestBlockhash ''confirmed'',
        SignTransaction
          \<lparr>instructions =
             [\<lparr>keys =
                 [\<lparr>pubkey = PublicKey ''7xKXtg2CW87d97TXJSDpbD5jBkheTqA83TZRuJosgAsU'',
                   isSigner = True, isWritable = True\<rparr>,
                  \<lparr>pubkey = ADMIN_WALLET, isSigner = False, isWritable = True\<rparr>,
                  \<lparr>pubkey = SystemProgram_programId, isSigner = False, isWritable = False\<rparr>],
               programId = PROGRAM_ID,
               data = [0, 0, 47, 104, 89, 0, 0, 0, 0]\<rparr>],
           feePayer = Some (PublicKey ''7xKXtg2CW87d97TXJSDpbD5jBkheTqA83TZRuJosgAsU''),
           recentBlockhash = Some ''EkSnNWid2cvwEVnVx9aBqawnmiCNiDgp3gUdkDPTKN1N''\<rparr>,
        AddNotification ''error'' [Str ''User rejected the request.''],
        SetIsProcessing False]))"
  unfolding refusingWalletEnv_def handleInvest_def tryBlock_def catchBlock_def step_defs
  by (simp add: openEnv_def enteredState_def validateAmount_1_5 lamports_1_5
      StringToNumber_1_5 createInstructionData_1500000000 setError_def setIsProcessing_def)





text \<open>
  Claim C9. A run that sets the processing flag ends by clearing it, on the path without
  an exception and on every path through the \<open>catch\<close> block, also when the
  notification in it throws; so a run started with the flag off ends with the flag off.
\<close>

theorem processing_flag_cleared:
  "(SetIsProcessing True \<in> set (snd (snd (handleInvest env (st, [])))) \<longrightarrow>
      last (snd (snd (handleInvest env (st, [])))) = SetIsProcessing False
      \<and> \<not> isProcessing (fst (snd (handleInvest env (st, [])))))
   \<and> (\<not> isProcessing st \<longrightarrow> \<not> isProcessing (fst (snd (handleInvest env (st, [])))))"
proof (cases rule: handleInvest_cases [where env = env and w = "(st, [])"])
  case no_wallet
  show ?thesis by (simp add: handleInvest_no_wallet [OF no_wallet])
next
  case (invalid wallet m)
  show ?thesis by (simp add: handleInvest_invalid [OF invalid] setError_def)
next
  case (valid wallet m)
  let ?w = "setIsProcessing True (setError m (st, []))"
  obtain r w2 where t: "tryBlock env st wallet ?w = (r, w2)"
    by (cases "tryBlock env st wallet ?w")
  show ?thesis
  proof (cases r)
    case (Inl e)
    obtain r' l' m' where c: "catchBlock env e w2 = (r', (fst w2, snd w2 @ [AddNotification l' m']))"
      using catchBlock_frame by blast
    from Inl c t show ?thesis
      by (simp add: handleInvest_valid [OF valid] setIsProcessing_def)
  next
    case (Inr u)
    with t show ?thesis
      by (simp add: handleInvest_valid [OF valid] setIsProcessing_def)
  qed
qed

theorem processing_flag_cleared_witness:
  "SetIsProcessing True \<in> set (snd (snd (handleInvest openEnv (enteredState, []))))
   \<and> last (snd (snd (handleInvest openEnv (enteredState, [])))) = SetIsProcessing False
   \<and> \<not> isProcessing enteredState
   \<and> \<not> isProcessing (fst (snd (handleInvest openEnv (enteredState, []))))
   \<and> SetIsProcessing True
       \<in> set (snd (snd (handleInvest (openEnv\<lparr>getBalance := \<lambda>k. Inr (Fin 1000000000)\<rparr>)
                           (enteredState, []))))
   \<and> last (snd (snd (handleInvest (openEnv\<lparr>getBalance := \<lambda>k. Inr (Fin 1000000000)\<rparr>)
                        (enteredState, [])))) = SetIsProcessing False
   \<and> \<not> isProcessing (fst (snd (handleInvest (openEnv\<lparr>getBalance := \<lambda>k. Inr (Fin 1000000000)\<rparr>)
                                (enteredState, []))))"
proof -
  let ?env = "openEnv\<lparr>getBalance := \<lambda>k. Inr (Fin 1000000000)\<rparr>"
  have set1: "SetIsProcessing True \<in> set (snd (snd (handleInvest openEnv (enteredState, []))))"
    by (simp add: handleInvest_openEnv)
  have set2: "SetIsProcessing True \<in> set (snd (snd (handleInvest ?env (enteredState, []))))"
    by (simp add: handleInvest_low_balance)
  have idle: "\<not> isProcessing enteredState" by (simp add: enteredState_def)
  from processing_flag_cleared [of openEnv enteredState]
    processing_flag_cleared [of ?env enteredState] set1 set2 idle
  show ?thesis by simp
qed

section \<open>Numeric strings that are not decimal notation\<close>

lemma below_10: "d < 10 \<Longrightarrow> d \<in> {0, 1, 2, 3, 4, 5, 6, 7, 8, 9 :: nat}"
  by simp presburger

lemma below_16:
  "d < 16 \<Longrightarrow> d \<in> {0, 1, 2, 3, 4, 5, 6, 7, 8, 9, 10, 11, 12, 13, 14, 15 :: nat}"
  by simp presburger

lemma decimalChar_value: "d < 10 \<Longrightarrow> unat (decimalChar d) = 48 + d"
  by (drule below_10) (auto simp: decimalChar_def str_def ch_def)

lemma hexChar_value:
  "d < 16 \<Longrightarrow> unat (hexChar upper d)
     = (if d < 10 then 48 + d else if upper then 55 + d else 87 + d)"
  by (drule below_16) (auto simp: hexChar_def str_def ch_def)

lemma foldl_positional:
  "foldl (\<lambda>a d. b * a + d) (a :: nat) ds
     = a * b ^ length ds + (\<Sum>i<length ds. ds ! i * b ^ (length ds - Suc i))"
proof (induction ds arbitrary: a)
  case Nil
  show ?case by simp
next
  case (Cons d ds)
  have shift: "(\<Sum>i<length (d # ds). (d # ds) ! i * b ^ (length (d # ds) - Suc i))
      = d * b ^ length ds + (\<Sum>i<length ds. ds ! i * b ^ (length ds - Suc i))"
    by (simp only: length_Cons sum.lessThan_Suc_shift) simp
  have "foldl (\<lambda>a d. b * a + d) a (d # ds) = foldl (\<lambda>a d. b * a + d) (b * a + d) ds"
    by simp
  also have "\<dots> = (b * a + d) * b ^ length ds
      + (\<Sum>i<length ds. ds ! i * b ^ (length ds - Suc i))"
    by (rule Cons.IH)
  also have "\<dots> = a * b ^ length (d # ds)
      + (d * b ^ length ds + (\<Sum>i<length ds. ds ! i * b ^ (length ds - Suc i)))"
    by (simp add: algebra_simps)
  finally show ?case by (simp only: shift)
qed

lemma digitsMV_positional: "digitsMV b ds = positional b ds"
  by (simp add: digitsMV_def positional_def foldl_positional)

lemma decimalDigit_decimalChar: "d < 10 \<Longrightarrow> decimalDigit (decimalChar d) = Some d"
  by (simp add: decimalDigit_def decimalChar_value)

lemma hexDigit_hexChar: "d < 16 \<Longrightarrow> hexDigit (hexChar upper d) = Some d"
  by (simp add: hexDigit_def hexChar_value)

lemma isStrWhiteSpaceChar_unat:
  "isStrWhiteSpaceChar c \<Longrightarrow> unat c \<le> 32 \<or> 160 \<le> unat c"
  by (auto simp: isStrWhiteSpaceChar_def)

lemma decimalChar_not_white: "d < 10 \<Longrightarrow> \<not> isStrWhiteSpaceChar (decimalChar d)"
  using isStrWhiteSpaceChar_unat [of "decimalChar d"] by (auto simp: decimalChar_value)

lemma hexChar_not_white: "d < 16 \<Longrightarrow> \<not> isStrWhiteSpaceChar (hexChar upper d)"
  using isStrWhiteSpaceChar_unat [of "hexChar upper d"]
  by (auto simp: hexChar_value split: if_splits)

lemma unat_ch [simp]:
  "unat (ch CHR ''0'') = 48" "unat (ch CHR ''.'') = 46" "unat (ch CHR ''e'') = 101"
  "unat (ch CHR ''E'') = 69" "unat (ch CHR ''+'') = 43" "unat (ch CHR ''-'') = 45"
  "unat (ch CHR ''x'') = 120" "unat (ch CHR ''X'') = 88" "unat (ch CHR ''b'') = 98"
  "unat (ch CHR ''B'') = 66" "unat (ch CHR ''o'') = 111" "unat (ch CHR ''O'') = 79"
  "unat (ch CHR ''I'') = 73"
  by (simp_all add: ch_def)

lemma takeDigits_map:
  assumes "\<forall>d\<in>set ds. dv (f d) = Some (g d)" and "rest = [] \<or> dv (hd rest) = None"
  shows "takeDigits dv (map f ds @ rest) = (map g ds, rest)"
  using assms
proof (induction ds)
  case Nil
  then show ?case by (cases rest) auto
next
  case (Cons d ds)
  then show ?case by simp
qed

lemma trimString_id:
  assumes "s \<noteq> []" and "\<not> isStrWhiteSpaceChar (hd s)" and "\<not> isStrWhiteSpaceChar (last s)"
  shows "trimString s = s"
proof -
  have "dropWhile isStrWhiteSpaceChar s = s"
    using assms(2) by (simp add: dropWhile_eq_self_iff)
  moreover have "dropWhile isStrWhiteSpaceChar (rev s) = rev s"
    using assms(1,3) by (simp add: dropWhile_eq_self_iff hd_rev)
  ultimately show ?thesis by (simp add: trimString_def)
qed

lemma allDigits_decimal:
  assumes "xs \<noteq> []" and "list_all (\<lambda>d. d < 10) xs"
  shows "allDigits decimalDigit 10 (map decimalChar xs) = Some (positional 10 xs)"
proof -
  have "\<forall>d\<in>set xs. decimalDigit (decimalChar d) = Some (id d)"
    using assms(2) by (simp add: list_all_iff decimalDigit_decimalChar)
  from takeDigits_map [OF this, of "[]"]
  have "takeDigits decimalDigit (map decimalChar xs) = (xs, [])" by simp
  with assms(1) show ?thesis by (simp add: allDigits_def digitsMV_positional)
qed

lemma allDigits_hex:
  assumes "ds \<noteq> []" and "list_all (\<lambda>(u, d). d < 16) ds"
  shows "allDigits hexDigit 16 (map (\<lambda>(u, d). hexChar u d) ds)
           = Some (positional 16 (map snd ds))"
proof -
  have "\<forall>p\<in>set ds. hexDigit ((\<lambda>(u, d). hexChar u d) p) = Some (snd p)"
    using assms(2) by (auto simp: list_all_iff hexDigit_hexChar)
  from takeDigits_map [OF this, of "[]"]
  have "takeDigits hexDigit (map (\<lambda>(u, d). hexChar u d) ds) = (map snd ds, [])" by simp
  with assms(1) show ?thesis by (simp add: allDigits_def digitsMV_positional)
qed

text \<open>White space around a string that neither starts nor ends with white space.\<close>

lemma trimString_padded:
  assumes "list_all isStrWhiteSpaceChar l" and "list_all isStrWhiteSpaceChar r"
    and "s \<noteq> []" and "\<not> isStrWhiteSpaceChar (hd s)" and "\<not> isStrWhiteSpaceChar (last s)"
  shows "trimString (l @ s @ r) = s"
proof -
  have "dropWhile isStrWhiteSpaceChar (l @ s @ r) = dropWhile isStrWhiteSpaceChar (s @ r)"
    using assms(1) by (intro dropWhile_append2) (simp add: list_all_iff)
  also have "\<dots> = s @ r"
    using assms(3,4) by (cases s) simp_all
  finally have front: "dropWhile isStrWhiteSpaceChar (l @ s @ r) = s @ r" .
  have "dropWhile isStrWhiteSpaceChar (rev r @ rev s) = dropWhile isStrWhiteSpaceChar (rev s)"
    using assms(2) by (intro dropWhile_append2) (simp add: list_all_iff)
  also have "\<dots> = rev s"
    using assms(3,5) by (simp add: dropWhile_eq_self_iff hd_rev)
  finally show ?thesis by (simp add: trimString_def front)
qed

lemma StringToNumber_padded:
  assumes "list_all isStrWhiteSpaceChar l" and "list_all isStrWhiteSpaceChar r"
    and "s \<noteq> []" and "\<not> isStrWhiteSpaceChar (hd s)" and "\<not> isStrWhiteSpaceChar (last s)"
  shows "StringToNumber (l @ s @ r) = StringToNumber s"
  unfolding StringToNumber_def trimString_padded [OF assms] trimString_id [OF assms(3,4,5)] ..

text \<open>Hexadecimal literals.\<close>

lemma hexLiteral_ends:
  assumes "ds \<noteq> []" and "list_all (\<lambda>(u, d). d < 16) ds"
  shows "hexLiteral upperX ds \<noteq> []" "\<not> isStrWhiteSpaceChar (hd (hexLiteral upperX ds))"
    "\<not> isStrWhiteSpaceChar (last (hexLiteral upperX ds))"
proof -
  let ?s = "hexLiteral upperX ds"
  show "?s \<noteq> []" by (simp add: hexLiteral_def)
  show "\<not> isStrWhiteSpaceChar (hd ?s)"
    using isStrWhiteSpaceChar_unat [of "ch CHR ''0''"] by (auto simp: hexLiteral_def)
  obtain u d where l: "last ds = (u, d)" by (cases "last ds")
  have "(u, d) \<in> set ds" using assms(1) l by (metis last_in_set)
  then have "d < 16" using assms(2) by (auto simp: list_all_iff)
  have "last ?s = hexChar u d"
    using assms(1) l by (simp add: hexLiteral_def last_map)
  then show "\<not> isStrWhiteSpaceChar (last ?s)"
    using \<open>d < 16\<close> by (simp add: hexChar_not_white)
qed

lemma StringToNumber_hexLiteral:
  assumes "ds \<noteq> []" and "list_all (\<lambda>(u, d). d < 16) ds"
  shows "StringToNumber (hexLiteral upperX ds) = round64 (of_nat (positional 16 (map snd ds)))"
proof -
  let ?s = "hexLiteral upperX ds"
  have trim: "trimString ?s = ?s"
    by (intro trimString_id hexLiteral_ends [OF assms])
  have x: "ch CHR ''x'' \<noteq> ch CHR ''b''" "ch CHR ''x'' \<noteq> ch CHR ''B''"
    "ch CHR ''x'' \<noteq> ch CHR ''o''" "ch CHR ''x'' \<noteq> ch CHR ''O''"
    "ch CHR ''X'' \<noteq> ch CHR ''b''" "ch CHR ''X'' \<noteq> ch CHR ''B''"
    "ch CHR ''X'' \<noteq> ch CHR ''o''" "ch CHR ''X'' \<noteq> ch CHR ''O''"
    by (simp_all add: ch_def)
  have "nonDecimalIntegerLiteral ?s = Some (positional 16 (map snd ds))"
    using allDigits_hex [OF assms] by (simp add: nonDecimalIntegerLiteral_def hexLiteral_def x)
  with trim show ?thesis by (simp add: StringToNumber_def hexLiteral_def)
qed

text \<open>Literals in scientific notation.\<close>


lemma decimalDigit_marks [simp]:
  "decimalDigit (ch CHR ''.'') = None" "decimalDigit (ch CHR ''e'') = None"
  "decimalDigit (ch CHR ''E'') = None" "decimalDigit (ch CHR ''+'') = None"
  "decimalDigit (ch CHR ''-'') = None"
  by (simp_all add: decimalDigit_def)

lemma decimalChar_distinct:
  assumes "d < 10"
  shows "decimalChar d \<noteq> ch CHR ''+''" "decimalChar d \<noteq> ch CHR ''-''"
    "decimalChar d \<noteq> ch CHR ''.''" "decimalChar d \<noteq> ch CHR ''e''"
    "decimalChar d \<noteq> ch CHR ''E''" "decimalChar d \<noteq> ch CHR ''I''"
    "decimalChar d \<noteq> ch CHR ''b''" "decimalChar d \<noteq> ch CHR ''B''"
    "decimalChar d \<noteq> ch CHR ''o''" "decimalChar d \<noteq> ch CHR ''O''"
    "decimalChar d \<noteq> ch CHR ''x''" "decimalChar d \<noteq> ch CHR ''X''"
  using assms decimalChar_value [OF assms] by (auto dest: arg_cong [where f = unat])

lemma signedInteger_literal:
  assumes "xs \<noteq> []" and "list_all (\<lambda>d. d < 10) xs"
  shows "signedInteger (signChars sg @ map decimalChar xs)
           = Some (case sg of Minus \<Rightarrow> - int (positional 10 xs) | _ \<Rightarrow> int (positional 10 xs))"
proof (cases sg)
  case NoSign
  obtain x xs' where xs: "xs = x # xs'" using assms(1) by (cases xs) auto
  with assms(2) have "x < 10" by simp
  from decimalChar_distinct [OF this] allDigits_decimal [OF assms] NoSign xs
  show ?thesis by (simp add: signedInteger_def signChars_def)
next
  case Plus
  with allDigits_decimal [OF assms] show ?thesis
    by (simp add: signedInteger_def signChars_def str_def)
next
  case Minus
  have "ch CHR ''-'' \<noteq> ch CHR ''+''" by (simp add: ch_def)
  with Minus allDigits_decimal [OF assms] show ?thesis
    by (simp add: signedInteger_def signChars_def str_def)
qed

lemma exponentPart_literal:
  assumes "xs \<noteq> []" and "list_all (\<lambda>d. d < 10) xs"
  shows "exponentPart (ch (if upperE then CHR ''E'' else CHR ''e'') # signChars sg
           @ map decimalChar xs)
           = Some (case sg of Minus \<Rightarrow> - int (positional 10 xs) | _ \<Rightarrow> int (positional 10 xs))"
  using signedInteger_literal [OF assms] by (simp add: exponentPart_def)

text \<open>The first two characters of a scientific literal rule out the other literals.\<close>

lemma scientificLiteral_shape:
  assumes "list_all (\<lambda>d. d < 10) ip"
    and "case fraction of None \<Rightarrow> True | Some fp \<Rightarrow> list_all (\<lambda>d. d < 10) fp"
    and "xs \<noteq> []" and "list_all (\<lambda>d. d < 10) xs"
    and "ip \<noteq> [] \<or> (\<exists>fp. fraction = Some fp \<and> fp \<noteq> [])"
  shows "\<exists>c0 c1 r. scientificLiteral ip fraction upperE sg xs = c0 # c1 # r
           \<and> (48 \<le> unat c0 \<and> unat c0 \<le> 57 \<or> unat c0 = 46)
           \<and> (48 \<le> unat c1 \<and> unat c1 \<le> 57 \<or> unat c1 = 46 \<or> unat c1 = 69 \<or> unat c1 = 101)"
proof (cases ip)
  case Nil
  with assms(5) obtain f fp where fraction: "fraction = Some (f # fp)" by (cases fraction; cases "the fraction") auto
  with assms(2) have "f < 10" by simp
  with Nil fraction show ?thesis
    by (simp add: scientificLiteral_def decimalChar_value)
next
  case (Cons d ds)
  with assms(1) have d: "d < 10" by simp
  show ?thesis
  proof (cases ds)
    case Nil
    with Cons d show ?thesis
      by (cases fraction) (simp_all add: scientificLiteral_def decimalChar_value)
  next
    case (Cons d' ds')
    with \<open>ip = d # ds\<close> assms(1) have "d' < 10" by simp
    with Cons \<open>ip = d # ds\<close> d show ?thesis
      by (simp add: scientificLiteral_def decimalChar_value)
  qed
qed

lemma strUnsignedDecimalLiteral_scientific:
  assumes "list_all (\<lambda>d. d < 10) ip"
    and "case fraction of None \<Rightarrow> True | Some fp \<Rightarrow> list_all (\<lambda>d. d < 10) fp"
    and "xs \<noteq> []" and "list_all (\<lambda>d. d < 10) xs"
    and "ip \<noteq> [] \<or> (\<exists>fp. fraction = Some fp \<and> fp \<noteq> [])"
  shows "strUnsignedDecimalLiteral (scientificLiteral ip fraction upperE sg xs)
           = Some (MV (scientificValue ip fraction sg xs))"
proof -
  let ?s = "scientificLiteral ip fraction upperE sg xs"
  let ?e = "ch (if upperE then CHR ''E'' else CHR ''e'')"
  let ?x = "case sg of Minus \<Rightarrow> - int (positional 10 xs) | _ \<Rightarrow> int (positional 10 xs)"
  let ?tail = "?e # signChars sg @ map decimalChar xs"
  from scientificLiteral_shape [OF assms] obtain c0 c1 r where
    shape: "?s = c0 # c1 # r" "48 \<le> unat c0 \<and> unat c0 \<le> 57 \<or> unat c0 = 46"
    by blast
  have "c0 \<noteq> ch CHR ''I''"
    using shape(2) by (auto dest: arg_cong [where f = unat])
  then have finite: "?s \<noteq> str ''Infinity''"
    unfolding shape(1) by (simp add: str_def)
  have digits: "\<forall>d\<in>set ds. decimalDigit (decimalChar d) = Some (id d)"
    if "list_all (\<lambda>d. d < 10) ds" for ds
    using that by (simp add: list_all_iff decimalDigit_decimalChar)
  have expo: "exponentPart ?tail = Some ?x"
    using exponentPart_literal [OF assms(3,4)] by simp
  have e_mark: "decimalDigit ?e = None" "?e \<noteq> ch CHR ''.''"
    by (simp_all add: ch_def decimalDigit_def)
  show ?thesis
  proof (cases fraction)
    case None
    with assms(5) have ip: "ip \<noteq> []" by simp
    have s: "?s = map decimalChar ip @ ?tail"
      by (simp add: scientificLiteral_def None)
    have "takeDigits decimalDigit (map decimalChar ip @ ?tail) = (map id ip, ?tail)"
      using digits [OF assms(1)] e_mark(1) by (intro takeDigits_map) simp_all
    then have "takeDigits decimalDigit ?s = (ip, ?tail)"
      by (simp only: s list.map_id)
    with finite ip e_mark(2) expo None show ?thesis
      by (simp add: strUnsignedDecimalLiteral_def scientificValue_def digitsMV_positional)
  next
    case (Some fp)
    with assms(2) have fp: "list_all (\<lambda>d. d < 10) fp" by simp
    from Some assms(5) have some: "\<not> (ip = [] \<and> fp = [])" by auto
    let ?rest = "ch CHR ''.'' # map decimalChar fp @ ?tail"
    have s: "?s = map decimalChar ip @ ?rest"
      by (simp add: scientificLiteral_def Some)
    have "takeDigits decimalDigit (map decimalChar ip @ ?rest) = (map id ip, ?rest)"
      using digits [OF assms(1)] by (intro takeDigits_map) simp_all
    then have t1: "takeDigits decimalDigit ?s = (ip, ?rest)"
      by (simp only: s list.map_id)
    have "takeDigits decimalDigit (map decimalChar fp @ ?tail) = (map id fp, ?tail)"
      using digits [OF fp] e_mark(1) by (intro takeDigits_map) simp_all
    then have t2: "takeDigits decimalDigit (map decimalChar fp @ ?tail) = (fp, ?tail)"
      by (simp only: list.map_id)
    from finite t1 t2 some expo Some show ?thesis
      by (simp add: strUnsignedDecimalLiteral_def scientificValue_def digitsMV_positional)
  qed
qed

text \<open>The same with a sign in front: the sign is that of the number.\<close>

lemma signedLiteral_scientific:
  assumes "list_all (\<lambda>d. d < 10) ip"
    and "case fraction of None \<Rightarrow> True | Some fp \<Rightarrow> list_all (\<lambda>d. d < 10) fp"
    and "xs \<noteq> []" and "list_all (\<lambda>d. d < 10) xs"
    and "ip \<noteq> [] \<or> (\<exists>fp. fraction = Some fp \<and> fp \<noteq> [])"
  shows "signedLiteral lead (scientificLiteral ip fraction upperE sg xs) \<noteq> []"
    and "\<not> isStrWhiteSpaceChar
           (hd (signedLiteral lead (scientificLiteral ip fraction upperE sg xs)))"
    and "\<not> isStrWhiteSpaceChar
           (last (signedLiteral lead (scientificLiteral ip fraction upperE sg xs)))"
    and "StringToNumber (signedLiteral lead (scientificLiteral ip fraction upperE sg xs))
           = round64 (signedValue lead (scientificValue ip fraction sg xs))"
proof -
  let ?s = "scientificLiteral ip fraction upperE sg xs"
  let ?t = "signedLiteral lead ?s"
  let ?v = "scientificValue ip fraction sg xs"
  from scientificLiteral_shape [OF assms] obtain c0 c1 r where
    shape: "?s = c0 # c1 # r"
      "48 \<le> unat c0 \<and> unat c0 \<le> 57 \<or> unat c0 = 46"
      "48 \<le> unat c1 \<and> unat c1 \<le> 57 \<or> unat c1 = 46 \<or> unat c1 = 69 \<or> unat c1 = 101"
    by blast
  show ne: "?t \<noteq> []" by (simp add: signedLiteral_def shape(1))
  have "last xs < 10" using assms(3,4) by (simp add: list_all_iff)
  moreover have "last ?s = decimalChar (last xs)"
    using assms(3) by (simp add: scientificLiteral_def last_map)
  moreover have "last ?t = last ?s" by (simp add: signedLiteral_def shape(1))
  ultimately show l: "\<not> isStrWhiteSpaceChar (last ?t)" by (simp add: decimalChar_not_white)
  have "hd ?t = (case lead of NoSign \<Rightarrow> c0 | Plus \<Rightarrow> ch CHR ''+'' | Minus \<Rightarrow> ch CHR ''-'')"
    by (cases lead) (simp_all add: signedLiteral_def signChars_def str_def shape(1))
  then show h: "\<not> isStrWhiteSpaceChar (hd ?t)"
    using isStrWhiteSpaceChar_unat [of c0] isStrWhiteSpaceChar_unat [of "ch CHR ''+''"]
      isStrWhiteSpaceChar_unat [of "ch CHR ''-''"] shape(2)
    by (cases lead) auto
  have trim: "trimString ?t = ?t" using ne h l by (rule trimString_id)
  have first: "c0 \<noteq> ch CHR ''+''" "c0 \<noteq> ch CHR ''-''"
    using shape(2) by (auto dest: arg_cong [where f = unat])
  have other: "c0 \<noteq> ch CHR ''0'' \<or>
      (c1 \<noteq> ch CHR ''b'' \<and> c1 \<noteq> ch CHR ''B'' \<and> c1 \<noteq> ch CHR ''o'' \<and> c1 \<noteq> ch CHR ''O''
       \<and> c1 \<noteq> ch CHR ''x'' \<and> c1 \<noteq> ch CHR ''X'')"
    using shape(3) by (auto dest: arg_cong [where f = unat])
  have marks: "ch CHR ''+'' \<noteq> ch CHR ''0''" "ch CHR ''-'' \<noteq> ch CHR ''0''"
    "ch CHR ''-'' \<noteq> ch CHR ''+''"
    by (simp_all add: ch_def)
  note u = strUnsignedDecimalLiteral_scientific [OF assms, of upperE sg]
  have nondec: "nonDecimalIntegerLiteral ?t = None"
    using other marks
    by (cases lead) (auto simp: nonDecimalIntegerLiteral_def signedLiteral_def signChars_def
        str_def shape(1))
  have dec: "strDecimalLiteral ?t = Some (lead = Minus, MV ?v)"
  proof (cases lead)
    case NoSign
    then have "?t = c0 # c1 # r" by (simp add: signedLiteral_def signChars_def shape(1))
    with first u NoSign show ?thesis by (simp add: strDecimalLiteral_def shape(1))
  next
    case Plus
    then have "?t = ch CHR ''+'' # ?s" by (simp add: signedLiteral_def signChars_def str_def)
    with u Plus show ?thesis by (simp add: strDecimalLiteral_def)
  next
    case Minus
    then have "?t = ch CHR ''-'' # ?s" by (simp add: signedLiteral_def signChars_def str_def)
    with u Minus marks(3) show ?thesis by (simp add: strDecimalLiteral_def)
  qed
  from ne trim nondec dec
  show "StringToNumber ?t = round64 (signedValue lead ?v)"
    by (cases lead) (simp_all add: StringToNumber_def signedValue_def)
qed


text \<open>An input that reads as the rounding of a number within the bounds is accepted.\<close>

lemma validateAmount_in_range:
  assumes "\<not> isPresaleEnded env" and "StringToNumber s = round64 x"
    and "jsle MIN_INVESTMENT (Fin x)" and "jsle (Fin x) MAX_INVESTMENT"
  shows "validateAmount env s w = (True, setError [] w)"
proof -
  from assms(3,4) have x: "3022314549036573 / 302231454903657293676544 \<le> x" "x \<le> 5000"
    by (simp_all add: jsle_def MIN_INVESTMENT_value MAX_INVESTMENT_value)
  from round64_in_range [OF x] obtain r where
    r: "round64 x = Fin r" "3022314549036573 / 302231454903657293676544 \<le> r" "r \<le> 5000"
    by blast
  have "0 < r" using r(2) by (rule less_le_trans [rotated]) simp
  with assms(1,2) r show ?thesis
    by (simp add: validateAmount_def isNaN_def jsle_def jsgt_def
        MIN_INVESTMENT_value MAX_INVESTMENT_value Let_def)
qed

lemma positional_eval: "positional b ds = foldl (\<lambda>a d. b * a + d) 0 ds"
  using digitsMV_positional [of b ds] by (simp add: digitsMV_def)

text \<open>
  Claim C10. The amount is read with \<open>Number\<close>. A string of white space only (any of
  the white-space and line-terminator code units of ECMAScript, the empty string
  included) reads as 0 and gets the message of the invalid amount. Every hexadecimal
  literal (\<open>0x\<close> or \<open>0X\<close>, then one or more digits in either case) reads as the binary64
  number of its digits in base 16, and every literal in scientific notation (optional
  sign, integer part, optional fraction, \<open>e\<close> or \<open>E\<close>, optional sign, exponent) reads as
  the binary64 number of its decimal value, white space around the literal being
  ignored; when the value written lies between \<open>MIN_INVESTMENT\<close> and \<open>MAX_INVESTMENT\<close>
  the input is accepted, and the hexadecimal one reads as exactly that value.
\<close>

theorem validateAmount_coercion:
  fixes env :: env and w :: world and s l r :: jsstring
  defines "whiteSpace \<equiv> list_all (\<lambda>c. c \<in> set [0x0009, 0x000A, 0x000B, 0x000C, 0x000D,
      0x0020, 0x00A0, 0x1680, 0x2000, 0x2001, 0x2002, 0x2003, 0x2004, 0x2005, 0x2006, 0x2007,
      0x2008, 0x2009, 0x200A, 0x2028, 0x2029, 0x202F, 0x205F, 0x3000, 0xFEFF :: codeUnit])"
  assumes "\<not> isPresaleEnded env"
  shows "(whiteSpace s \<longrightarrow>
            StringToNumber s = Fin 0
            \<and> validateAmount env s w = (False, setError [Str ''Please enter a valid amount''] w))
         \<and> (whiteSpace l \<and> whiteSpace r \<and> ds \<noteq> [] \<and> list_all (\<lambda>(u, d). d < 16) ds \<longrightarrow>
            StringToNumber (l @ hexLiteral upperX ds @ r)
              = round64 (of_nat (positional 16 (map snd ds)))
            \<and> (jsle MIN_INVESTMENT (Fin (of_nat (positional 16 (map snd ds))))
               \<and> jsle (Fin (of_nat (positional 16 (map snd ds)))) MAX_INVESTMENT \<longrightarrow>
                 StringToNumber (l @ hexLiteral upperX ds @ r)
                   = Fin (of_nat (positional 16 (map snd ds)))
                 \<and> validateAmount env (l @ hexLiteral upperX ds @ r) w = (True, setError [] w)))
         \<and> (whiteSpace l \<and> whiteSpace r \<and> list_all (\<lambda>d. d < 10) ip
            \<and> (case fraction of None \<Rightarrow> True | Some fp \<Rightarrow> list_all (\<lambda>d. d < 10) fp)
            \<and> xs \<noteq> [] \<and> list_all (\<lambda>d. d < 10) xs
            \<and> (ip \<noteq> [] \<or> (\<exists>fp. fraction = Some fp \<and> fp \<noteq> [])) \<longrightarrow>
            StringToNumber (l @ signedLiteral lead (scientificLiteral ip fraction upperE sg xs) @ r)
              = round64 (signedValue lead (scientificValue ip fraction sg xs))
            \<and> (jsle MIN_INVESTMENT (Fin (signedValue lead (scientificValue ip fraction sg xs)))
               \<and> jsle (Fin (signedValue lead (scientificValue ip fraction sg xs))) MAX_INVESTMENT \<longrightarrow>
                 validateAmount env
                   (l @ signedLiteral lead (scientificLiteral ip fraction upperE sg xs) @ r) w
                   = (True, setError [] w)))"
proof -
  have white: "whiteSpace = list_all isStrWhiteSpaceChar"
    unfolding whiteSpace_def isStrWhiteSpaceChar_def ..
  show ?thesis
  proof (intro conjI impI)
    assume "whiteSpace s"
    then have "list_all isStrWhiteSpaceChar s" by (simp only: white)
    then show "StringToNumber s = Fin 0" by (rule StringToNumber_white_space)
    with assms(2) show "validateAmount env s w
        = (False, setError [Str ''Please enter a valid amount''] w)"
      by (simp add: validateAmount_def isNaN_def jsle_def Let_def)
  next
    assume h: "whiteSpace l \<and> whiteSpace r \<and> ds \<noteq> [] \<and> list_all (\<lambda>(u, d). d < 16) ds"
    then have d: "ds \<noteq> []" "list_all (\<lambda>(u, d). d < 16) ds"
      and p: "list_all isStrWhiteSpaceChar l" "list_all isStrWhiteSpaceChar r"
      by (simp_all add: white)
    from StringToNumber_padded [OF p hexLiteral_ends [OF d]] StringToNumber_hexLiteral [OF d]
    show n: "StringToNumber (l @ hexLiteral upperX ds @ r)
        = round64 (of_nat (positional 16 (map snd ds)))"
      by simp
    assume q: "jsle MIN_INVESTMENT (Fin (of_nat (positional 16 (map snd ds))))
        \<and> jsle (Fin (of_nat (positional 16 (map snd ds)))) MAX_INVESTMENT"
    then have "positional 16 (map snd ds) \<le> 5000"
      by (simp add: jsle_def MAX_INVESTMENT_value)
    then have "int (positional 16 (map snd ds)) < 2 ^ 53" by simp
    from round64_integer [OF _ this] n
    show "StringToNumber (l @ hexLiteral upperX ds @ r)
        = Fin (of_nat (positional 16 (map snd ds)))"
      by simp
    from q show "validateAmount env (l @ hexLiteral upperX ds @ r) w = (True, setError [] w)"
      by (intro validateAmount_in_range [OF assms(2) n]) simp_all
  next
    assume h: "whiteSpace l \<and> whiteSpace r \<and> list_all (\<lambda>d. d < 10) ip
        \<and> (case fraction of None \<Rightarrow> True | Some fp \<Rightarrow> list_all (\<lambda>d. d < 10) fp)
        \<and> xs \<noteq> [] \<and> list_all (\<lambda>d. d < 10) xs
        \<and> (ip \<noteq> [] \<or> (\<exists>fp. fraction = Some fp \<and> fp \<noteq> []))"
    then have d: "list_all (\<lambda>d. d < 10) ip"
      "case fraction of None \<Rightarrow> True | Some fp \<Rightarrow> list_all (\<lambda>d. d < 10) fp"
      "xs \<noteq> []" "list_all (\<lambda>d. d < 10) xs"
      "ip \<noteq> [] \<or> (\<exists>fp. fraction = Some fp \<and> fp \<noteq> [])"
      and p: "list_all isStrWhiteSpaceChar l" "list_all isStrWhiteSpaceChar r"
      by (simp_all add: white)
    note lit = signedLiteral_scientific [OF d, of lead upperE sg]
    from StringToNumber_padded [OF p lit(1,2,3)] lit(4)
    show n: "StringToNumber
        (l @ signedLiteral lead (scientificLiteral ip fraction upperE sg xs) @ r)
        = round64 (signedValue lead (scientificValue ip fraction sg xs))"
      by simp
    assume "jsle MIN_INVESTMENT (Fin (signedValue lead (scientificValue ip fraction sg xs)))
        \<and> jsle (Fin (signedValue lead (scientificValue ip fraction sg xs))) MAX_INVESTMENT"
    then show "validateAmount env
        (l @ signedLiteral lead (scientificLiteral ip fraction upperE sg xs) @ r) w
        = (True, setError [] w)"
      by (intro validateAmount_in_range [OF assms(2) n]) simp_all
  qed
qed

theorem validateAmount_coercion_witness:
  "\<not> isPresaleEnded openEnv
   \<and> StringToNumber [] = Fin 0
   \<and> validateAmount openEnv [] (enteredState, [])
       = (False, (enteredState\<lparr>error := [Str ''Please enter a valid amount'']\<rparr>,
                  [SetError [Str ''Please enter a valid amount'']]))
   \<and> StringToNumber [0x3000, 0xFEFF, 0x2028, 0x0020, 0x0009] = Fin 0
   \<and> validateAmount openEnv [0x3000, 0xFEFF, 0x2028, 0x0020, 0x0009] (enteredState, [])
       = (False, (enteredState\<lparr>error := [Str ''Please enter a valid amount'']\<rparr>,
                  [SetError [Str ''Please enter a valid amount'']]))
   \<and> hexLiteral False [(False, 1), (False, 0)] = str ''0x10''
   \<and> StringToNumber (str ''0x10'') = Fin 16
   \<and> validateAmount openEnv (str ''0x10'') (enteredState, [])
       = (True, (enteredState, [SetError []]))
   \<and> hexLiteral True [(False, 15), (True, 10)] = str ''0XfA''
   \<and> StringToNumber (0x0020 # str ''0XfA'' @ [0x000A]) = Fin 250
   \<and> validateAmount openEnv (0x0020 # str ''0XfA'' @ [0x000A]) (enteredState, [])
       = (True, (enteredState, [SetError []]))
   \<and> signedLiteral NoSign (scientificLiteral [1] None False NoSign [2]) = str ''1e2''
   \<and> StringToNumber (str ''1e2'') = Fin 100
   \<and> validateAmount openEnv (str ''1e2'') (enteredState, [])
       = (True, (enteredState, [SetError []]))
   \<and> signedLiteral Plus (scientificLiteral [2] (Some [5]) True Minus [1]) = str ''+2.5E-1''
   \<and> StringToNumber (0x00A0 # str ''+2.5E-1'' @ [0x0009]) = Fin (1 / 4)
   \<and> validateAmount openEnv (0x00A0 # str ''+2.5E-1'' @ [0x0009]) (enteredState, [])
       = (True, (enteredState, [SetError []]))
   \<and> signedLiteral Minus (scientificLiteral [] (Some [5]) False Plus [0, 1]) = str ''-.5e+01''
   \<and> StringToNumber (str ''-.5e+01'') = Fin (- 5)"
proof -
  have h: "\<not> isPresaleEnded openEnv" by (simp add: openEnv_def)
  have lit: "hexLiteral False [(False, 1), (False, 0)] = str ''0x10''"
    "hexLiteral True [(False, 15), (True, 10)] = str ''0XfA''"
    "signedLiteral NoSign (scientificLiteral [1] None False NoSign [2]) = str ''1e2''"
    "signedLiteral Plus (scientificLiteral [2] (Some [5]) True Minus [1]) = str ''+2.5E-1''"
    "signedLiteral Minus (scientificLiteral [] (Some [5]) False Plus [0, 1]) = str ''-.5e+01''"
    by (simp_all add: hexLiteral_def hexChar_def signedLiteral_def scientificLiteral_def
        decimalChar_def signChars_def str_def)
  have val: "positional 16 (map snd [(False, 1 :: nat), (False, 0)]) = 16"
    "positional 16 (map snd [(False, 15 :: nat), (True, 10)]) = 250"
    "signedValue NoSign (scientificValue [1] None NoSign [2]) = 100"
    "signedValue Plus (scientificValue [2] (Some [5]) Minus [1]) = 1 / 4"
    "signedValue Minus (scientificValue [] (Some [5]) Plus [0, 1]) = - 5"
    by (simp_all add: positional_eval scientificValue_def signedValue_def)
  have rng: "jsle MIN_INVESTMENT (Fin 16)" "jsle (Fin 16) MAX_INVESTMENT"
    "jsle MIN_INVESTMENT (Fin 250)" "jsle (Fin 250) MAX_INVESTMENT"
    "jsle MIN_INVESTMENT (Fin 100)" "jsle (Fin 100) MAX_INVESTMENT"
    "jsle MIN_INVESTMENT (Fin (1 / 4))" "jsle (Fin (1 / 4)) MAX_INVESTMENT"
    by (simp_all add: jsle_def MIN_INVESTMENT_value MAX_INVESTMENT_value)
  have rnd: "round64 100 = Fin 100" "round64 (1 / 4) = Fin (1 / 4)"
    "round64 16 = Fin 16" "round64 250 = Fin 250" "round64 (- 5) = Fin (- 5)"
    by (simp_all add: round64_eval jsneg_def)
  have e: "setError [] (enteredState, []) = (enteredState, [SetError []])"
    "setError [Str ''Please enter a valid amount''] (enteredState, [])
       = (enteredState\<lparr>error := [Str ''Please enter a valid amount'']\<rparr>,
          [SetError [Str ''Please enter a valid amount'']])"
    by (simp_all add: setError_def enteredState_def)
  have w0: "StringToNumber [] = Fin 0
      \<and> validateAmount openEnv [] (enteredState, [])
          = (False, (enteredState\<lparr>error := [Str ''Please enter a valid amount'']\<rparr>,
                     [SetError [Str ''Please enter a valid amount'']]))"
    using validateAmount_coercion [OF h, where s = "[]" and w = "(enteredState, [])"
        and l = "[]" and r = "[]" and ds = "[]" and ip = "[]" and xs = "[]"]
    by (simp add: e)
  have w1: "StringToNumber [0x3000, 0xFEFF, 0x2028, 0x0020, 0x0009] = Fin 0
      \<and> validateAmount openEnv [0x3000, 0xFEFF, 0x2028, 0x0020, 0x0009] (enteredState, [])
          = (False, (enteredState\<lparr>error := [Str ''Please enter a valid amount'']\<rparr>,
                     [SetError [Str ''Please enter a valid amount'']]))"
    using validateAmount_coercion [OF h, where s = "[0x3000, 0xFEFF, 0x2028, 0x0020, 0x0009]"
        and w = "(enteredState, [])" and l = "[]" and r = "[]" and ds = "[]" and ip = "[]"
        and xs = "[]"]
    by (simp add: e)
  have x1: "StringToNumber (str ''0x10'') = Fin 16
      \<and> validateAmount openEnv (str ''0x10'') (enteredState, [])
          = (True, (enteredState, [SetError []]))"
    using validateAmount_coercion [OF h, where s = "[]" and l = "[]" and r = "[]"
        and ds = "[(False, 1), (False, 0)]" and upperX = False and w = "(enteredState, [])"
        and ip = "[]" and xs = "[]"] rng
    by (simp only: lit val e) (simp add: rnd)
  have x2: "StringToNumber (0x0020 # str ''0XfA'' @ [0x000A]) = Fin 250
      \<and> validateAmount openEnv (0x0020 # str ''0XfA'' @ [0x000A]) (enteredState, [])
          = (True, (enteredState, [SetError []]))"
    using validateAmount_coercion [OF h, where s = "[]" and l = "[0x0020]" and r = "[0x000A]"
        and ds = "[(False, 15), (True, 10)]" and upperX = True and w = "(enteredState, [])"
        and ip = "[]" and xs = "[]"] rng
    by (simp only: lit val e) (simp add: rnd)
  have s1: "StringToNumber (str ''1e2'') = Fin 100
      \<and> validateAmount openEnv (str ''1e2'') (enteredState, [])
          = (True, (enteredState, [SetError []]))"
    using validateAmount_coercion [OF h, where s = "[]" and l = "[]" and r = "[]" and ds = "[]"
        and lead = NoSign and ip = "[1]" and fraction = None and upperE = False and sg = NoSign
        and xs = "[2]" and w = "(enteredState, [])"] rng
    by (simp only: lit val e) (simp add: rnd)
  have s2: "StringToNumber (0x00A0 # str ''+2.5E-1'' @ [0x0009]) = Fin (1 / 4)
      \<and> validateAmount openEnv (0x00A0 # str ''+2.5E-1'' @ [0x0009]) (enteredState, [])
          = (True, (enteredState, [SetError []]))"
    using validateAmount_coercion [OF h, where s = "[]" and l = "[0x00A0]" and r = "[0x0009]"
        and ds = "[]" and lead = Plus and ip = "[2]" and fraction = "Some [5]" and upperE = True
        and sg = Minus and xs = "[1]" and w = "(enteredState, [])"] rng
    by (simp only: lit val e) (simp add: rnd)
  have s3: "StringToNumber (str ''-.5e+01'') = Fin (- 5)"
    using validateAmount_coercion [OF h, where s = "[]" and l = "[]" and r = "[]" and ds = "[]"
        and lead = Minus and ip = "[]" and fraction = "Some [5]" and upperE = False
        and sg = Plus and xs = "[0, 1]" and w = "(enteredState, [])"]
    by (simp only: lit val e) (simp add: rnd)
  from h w0 w1 x1 x2 s1 s2 s3 lit show ?thesis by (simp only:) simp
qed

end
